theory Spec2Isabelle
  imports Complex_Main
begin

section \<open>Values of the JavaScript runtime\<close>

text \<open>
  Parsed JSON. An object is the list of its own properties; a property read takes the first
  entry with the key. \<open>undefined\<close> is not a JSON value: a JavaScript value that may be
  undefined is a \<open>json option\<close>, with \<open>None\<close> for undefined.
\<close>

datatype json =
    JNull
  | JBool bool
  | JNum rat
  | JStr string
  | JArr "json list"
  | JObj "(string \<times> json) list"

text \<open>
  A JavaScript number. Every finite double is a rational, so \<open>Fin\<close> covers the finite
  values (the sign of zero is not kept); the model never rounds.
\<close>

datatype jsnum = NaN | PosInf | NegInf | Fin rat

text \<open>
  Thrown values. \<open>Error m\<close> is \<open>new Error(m)\<close> or an error object of the platform
  with message \<open>m\<close> (a rejected fetch, a body that does not parse); \<open>TypeError m\<close> is
  raised by the engine on a property read of null or undefined or on a call of a non-function,
  \<open>m\<close> naming the place. Both are instances of Error.
\<close>

datatype error = Error string | TypeError string

fun message :: "error \<Rightarrow> string" where
  "message (Error m) = m"
| "message (TypeError m) = m"

text \<open>
  The Response of a fetch: \<open>text_result\<close> is what \<open>await response.text()\<close> gives and
  \<open>json_result\<close> what \<open>await response.json()\<close> gives, either of which may reject.
\<close>

record response =
  http_status :: nat
  statusText :: string
  text_result :: "error + string"
  json_result :: "error + json"

definition ok :: "response \<Rightarrow> bool" where
  "ok r = (200 \<le> http_status r \<and> http_status r \<le> 299)"

text \<open>
  A request as handed to fetch, and as received by a route handler. The query string is kept
  as the list of its key/value pairs; \<open>body\<close> is the value that was passed through
  JSON.stringify.
\<close>

record request =
  url :: string
  query :: "(string \<times> string) list"
  http_method :: string
  headers :: "(string \<times> string) list"
  body :: "json option"

text \<open>
  Everything outside the repository that the code calls: the network, the clock, and the
  built-ins whose results depend on the engine. The world \<open>'w\<close> is the state of the
  outside (the servers, the time); a fetch may change it.
\<close>

record 'w runtime =
  fetch :: "request \<Rightarrow> 'w \<Rightarrow> (error + response) \<times> 'w"
  now_iso :: "'w \<Rightarrow> string"
  Number :: "string \<Rightarrow> jsnum"
  to_string :: "json option \<Rightarrow> string"
  toLowerCase :: "string \<Rightarrow> string"
  env_BACKEND_API_URL :: "string option"

section \<open>The data of the page\<close>

text \<open>
  The type \<open>Lead\<close> of \<open>app/page.tsx\<close>. Identifiers are whole numbers in the lead source;
  an optional property that is absent is \<open>None\<close>.
\<close>

record lead =
  lead_id :: int
  first_name :: string
  last_name :: string
  age :: "nat option"
  zip_code :: "string option"
  interest :: "string option"
  email :: string
  insight :: "string option"
  status :: "string option"

text \<open>The values of the state variables \<open>batchProgress\<close> and \<open>batchResults\<close>.\<close>

record progress =
  progress_total :: nat
  progress_completed :: nat
  progress_failed :: nat
  progress_current :: "string option"

record tally =
  sent :: nat
  failed :: nat
  total :: nat

text \<open>
  What a run does, in order: the requests it sends, the timers it waits for (ms), and the
  state updates of the page that are visible while a batch runs.
\<close>

datatype event =
    Fetch request
  | Delay nat
  | SetStatus int string
  | SetProgress progress

section \<open>Operations of the language\<close>

definition digit_char :: "nat \<Rightarrow> char" where
  "digit_char n = ''0123456789'' ! (n mod 10)"

text \<open>
  The decimal digits of a whole number, as \<open>String(n)\<close> and a template literal print it
  (for numbers below \<open>10^21\<close>, which covers HTTP status codes, counters and the
  identifiers of leads).
\<close>

fun dec :: "nat \<Rightarrow> string" where
  "dec n = (if n < 10 then [digit_char n] else dec (n div 10) @ [digit_char (n mod 10)])"

declare dec.simps [simp del]

definition String_int :: "int \<Rightarrow> string" where
  "String_int i = (if i < 0 then CHR ''-'' # dec (nat (- i)) else dec (nat i))"

text \<open>
  A property read \<open>v.k\<close> for a key that no prototype defines (the code reads subject, body,
  consent_snapshot, variants, model, ok, status, error, message, id): it throws on null and
  undefined, finds the property on an object, and is undefined on every other value.
\<close>

fun get_prop :: "json option \<Rightarrow> string \<Rightarrow> error + json option" where
  "get_prop None k = Inl (TypeError (''Cannot read properties of undefined (reading '' @ k @ '')''))"
| "get_prop (Some JNull) k = Inl (TypeError (''Cannot read properties of null (reading '' @ k @ '')''))"
| "get_prop (Some (JObj kvs)) k = Inr (map_of kvs k)"
| "get_prop (Some v) k = Inr None"

text \<open>Truthiness of a value, as \<open>&&\<close>, \<open>||\<close> and \<open>!\<close> test it.\<close>

fun truthy :: "json option \<Rightarrow> bool" where
  "truthy None = False"
| "truthy (Some JNull) = False"
| "truthy (Some (JBool b)) = b"
| "truthy (Some (JNum x)) = (x \<noteq> 0)"
| "truthy (Some (JStr s)) = (s \<noteq> [])"
| "truthy (Some (JArr xs)) = True"
| "truthy (Some (JObj kvs)) = True"

text \<open>\<open>Math.min(a, b)\<close>: NaN if either argument is NaN.\<close>

fun Math_min :: "jsnum \<Rightarrow> jsnum \<Rightarrow> jsnum" where
  "Math_min NaN b = NaN"
| "Math_min a NaN = NaN"
| "Math_min NegInf b = NegInf"
| "Math_min a NegInf = NegInf"
| "Math_min PosInf b = b"
| "Math_min a PosInf = a"
| "Math_min (Fin x) (Fin y) = Fin (min x y)"

text \<open>A number inside JSON.stringify: a non-finite number is written as null.\<close>

fun num_json :: "jsnum \<Rightarrow> json" where
  "num_json (Fin x) = JNum x"
| "num_json n = JNull"

text \<open>A property of an object literal inside JSON.stringify: an undefined value is left out.\<close>

fun obj_field :: "string \<Rightarrow> json option \<Rightarrow> (string \<times> json) list" where
  "obj_field k None = []"
| "obj_field k (Some v) = [(k, v)]"

text \<open>\<open>searchParams.get(k) ?? d\<close>: the first value of the key, or the default.\<close>

definition param :: "(string \<times> string) list \<Rightarrow> string \<Rightarrow> string \<Rightarrow> string" where
  "param q k d = (case map_of q k of None \<Rightarrow> d | Some v \<Rightarrow> v)"

text \<open>\<open>process.env.BACKEND_API_URL || "http://127.0.0.1:8000"\<close>: unset or empty gives the default.\<close>

definition BACKEND_API_URL :: "'w runtime \<Rightarrow> string" where
  "BACKEND_API_URL rt =
     (case env_BACKEND_API_URL rt of
        None \<Rightarrow> ''http://127.0.0.1:8000''
      | Some u \<Rightarrow> if u = [] then ''http://127.0.0.1:8000'' else u)"

section \<open>The retry loop of the two forwarding routes\<close>

text \<open>
  The loop \<open>for (let i = 0; i < 3; i++)\<close> of \<open>app/api/email-preview/route.ts\<close> and
  \<open>app/api/send-email/route.ts\<close> (the same text in both), by recursion on the iterations
  left. The state of the loop is the pair of variables \<open>response\<close> and \<open>lastError\<close>.
  A response with \<open>response.ok\<close> leaves the loop by \<open>break\<close>, before the timer; every other
  iteration ends with the timer of 1000 ms. \<open>http_error\<close> is the value of \<open>lastError\<close>
  after a response that is not ok: the error built from its text, or the error caught when
  reading the text rejects.
\<close>

definition http_error :: "response \<Rightarrow> error" where
  "http_error resp =
     (case text_result resp of
        Inl err \<Rightarrow> err
      | Inr errorBody \<Rightarrow>
          Error (''Backend API error: '' @ dec (http_status resp) @ '' '' @ statusText resp
                 @ '' - '' @ errorBody))"

fun retry ::
  "'w runtime \<Rightarrow> request \<Rightarrow> nat \<Rightarrow> response option \<Rightarrow> error option \<Rightarrow> 'w
     \<Rightarrow> (response option \<times> error option) \<times> 'w \<times> event list" where
  "retry rt rq 0 response lastError w = ((response, lastError), w, [])"
| "retry rt rq (Suc n) response lastError w =
     (case fetch rt rq w of
        (Inl err, w1) \<Rightarrow>
          (case retry rt rq n response (Some err) w1 of
             (r, w2, tr) \<Rightarrow> (r, w2, Fetch rq # Delay 1000 # tr))
      | (Inr resp, w1) \<Rightarrow>
          if ok resp then ((Some resp, None), w1, [Fetch rq])
          else
            (case retry rt rq n (Some resp) (Some (http_error resp)) w1 of
               (r, w2, tr) \<Rightarrow> (r, w2, Fetch rq # Delay 1000 # tr)))"

text \<open>
  The loop with its initial variables, and the check after it:
  \<open>if (!response || !response.ok) throw lastError || new Error(...)\<close>.
\<close>

definition forward ::
  "'w runtime \<Rightarrow> request \<Rightarrow> 'w \<Rightarrow> (error + response) \<times> 'w \<times> event list" where
  "forward rt rq w =
     (case retry rt rq 3 None None w of
        ((response, lastError), w', tr) \<Rightarrow>
          (case response of
             None \<Rightarrow>
               (Inl (case lastError of
                       Some e \<Rightarrow> e
                     | None \<Rightarrow> Error ''Backend request failed after multiple retries''), w', tr)
           | Some resp \<Rightarrow>
               if \<not> ok resp then
                 (Inl (case lastError of
                         Some e \<Rightarrow> e
                       | None \<Rightarrow> Error ''Backend request failed after multiple retries''), w', tr)
               else (Inr resp, w', tr)))"

text \<open>What \<open>NextResponse.json(value, {status})\<close> carries.\<close>

record next_response =
  nr_status :: nat
  nr_body :: json

section \<open>The route \<open>app/api/send-email/route.ts\<close>\<close>

text \<open>The body built for the backend from the parsed incoming \<open>data\<close>.\<close>

definition send_backend_body :: "json \<Rightarrow> error + json" where
  "send_backend_body data =
     (case get_prop (Some data) ''subject'' of
        Inl e \<Rightarrow> Inl e
      | Inr subject \<Rightarrow>
          (case get_prop (Some data) ''body'' of
             Inl e \<Rightarrow> Inl e
           | Inr body' \<Rightarrow>
               (case get_prop (Some data) ''consent_snapshot'' of
                  Inl e \<Rightarrow> Inl e
                | Inr consent \<Rightarrow>
                    Inr (JObj ([(''recipient_email'', JStr ''test@example.com'')]
                               @ obj_field ''subject'' subject
                               @ obj_field ''body'' body'
                               @ obj_field ''consent_snapshot'' consent)))))"

definition backend_request :: "'w runtime \<Rightarrow> string \<Rightarrow> json \<Rightarrow> request" where
  "backend_request rt path b =
     \<lparr> url = BACKEND_API_URL rt @ path,
       query = [],
       http_method = ''POST'',
       headers = [(''Content-Type'', ''application/json''), (''Accept'', ''application/json'')],
       body = Some b \<rparr>"

text \<open>
  The try block of \<open>POST\<close>: \<open>Inl\<close> is the value thrown out of it. The argument is the
  outcome of \<open>await req.json()\<close> on the incoming request.
\<close>

definition POST_try ::
  "'w runtime \<Rightarrow> error + json \<Rightarrow> 'w \<Rightarrow> (error + next_response) \<times> 'w \<times> event list" where
  "POST_try rt req_json w =
     (case req_json of
        Inl e \<Rightarrow> (Inl e, w, [])
      | Inr data \<Rightarrow>
          (case send_backend_body data of
             Inl e \<Rightarrow> (Inl e, w, [])
           | Inr backendRequestBody \<Rightarrow>
               (case forward rt (backend_request rt ''/send'' backendRequestBody) w of
                  (Inl e, w', tr) \<Rightarrow> (Inl e, w', tr)
                | (Inr resp, w', tr) \<Rightarrow>
                    (case json_result resp of
                       Inl e \<Rightarrow> (Inl e, w', tr)
                     | Inr responseData \<Rightarrow>
                         (Inr \<lparr> nr_status = 200, nr_body = responseData \<rparr>, w', tr)))))"

definition POST ::
  "'w runtime \<Rightarrow> error + json \<Rightarrow> 'w \<Rightarrow> next_response \<times> 'w \<times> event list" where
  "POST rt req_json w =
     (case POST_try rt req_json w of
        (Inr res, w', tr) \<Rightarrow> (res, w', tr)
      | (Inl err, w', tr) \<Rightarrow>
          (\<lparr> nr_status = 500,
             nr_body = JObj [(''ok'', JBool False),
                             (''error'', JStr ''Failed to send email via backend''),
                             (''details'', JStr (message err))] \<rparr>, w', tr))"

section \<open>The route \<open>app/api/email-preview/route.ts\<close>\<close>

definition first_name_of :: "string \<Rightarrow> string" where
  "first_name_of i = (if i = ''2'' then ''Sarah'' else if i = ''3'' then ''Carlos'' else ''John'')"

definition mock_lead :: "string \<Rightarrow> json" where
  "mock_lead i =
     JObj [(''id'', JStr i),
           (''first_name'', JStr (first_name_of i)),
           (''last_name'', JStr ''Demo''),
           (''zip'', JStr ''90210''),
           (''insight'', JStr ''recently searched for coverage options''),
           (''business_specialization'', JStr ''Life insurance for new families'')]"

definition generate_backend_body :: "'w runtime \<Rightarrow> (string \<times> string) list \<Rightarrow> json" where
  "generate_backend_body rt q =
     (let i = param q ''id'' ''1'';
          tone = param q ''tone'' ''Friendly'';
          variants = Number rt (param q ''variants'' ''3'');
          creativity = Number rt (param q ''creativity'' ''0.6'')
      in JObj [(''lead'', mock_lead i),
               (''tone'', JStr tone),
               (''variants'', num_json (Math_min variants (Fin 5))),
               (''temperature'', num_json creativity)])"

text \<open>
  \<open>data.variants.slice(0, 3).map((v) => v.subject)\<close>. Only an array has both methods; on a
  string \<open>slice\<close> gives a string, which has no \<open>map\<close>. An undefined subject is written as
  null when the array is serialised.
\<close>

fun subjects :: "json list \<Rightarrow> error + json list" where
  "subjects [] = Inr []"
| "subjects (v # vs) =
     (case get_prop (Some v) ''subject'' of
        Inl e \<Rightarrow> Inl e
      | Inr s \<Rightarrow>
          (case subjects vs of
             Inl e \<Rightarrow> Inl e
           | Inr ss \<Rightarrow> Inr ((case s of None \<Rightarrow> JNull | Some x \<Rightarrow> x) # ss)))"

fun subject_suggestions :: "json option \<Rightarrow> error + json list" where
  "subject_suggestions None =
     Inl (TypeError ''Cannot read properties of undefined (reading slice)'')"
| "subject_suggestions (Some JNull) =
     Inl (TypeError ''Cannot read properties of null (reading slice)'')"
| "subject_suggestions (Some (JArr vs)) = subjects (take 3 vs)"
| "subject_suggestions (Some (JStr s)) = Inl (TypeError ''data.variants.slice(...).map is not a function'')"
| "subject_suggestions (Some v) = Inl (TypeError ''data.variants.slice is not a function'')"

definition rationale_text :: "'w runtime \<Rightarrow> string \<Rightarrow> string \<Rightarrow> string" where
  "rationale_text rt fname tone =
     ''This message uses '' @ fname
       @ [CHR 0x27] @ ''s recent search intent and local context to establish relevance, ''
       @ ''offers a low-friction CTA (10-min call), and matches a ''
       @ toLowerCase rt tone @ '' tone.''"

text \<open>What the route answers from the parsed payload \<open>data\<close> of the backend.\<close>

definition format_preview :: "'w runtime \<Rightarrow> (string \<times> string) list \<Rightarrow> json \<Rightarrow> error + next_response" where
  "format_preview rt q data =
     (case get_prop (Some data) ''variants'' of
        Inl e \<Rightarrow> Inl e
      | Inr variants \<Rightarrow>
          (case subject_suggestions variants of
             Inl e \<Rightarrow> Inl e
           | Inr subjectSuggestions \<Rightarrow>
               (case get_prop (Some data) ''model'' of
                  Inl e \<Rightarrow> Inl e
                | Inr model \<Rightarrow>
                    Inr \<lparr> nr_status = 200,
                          nr_body =
                            JObj (obj_field ''variants'' variants
                                  @ [(''rationale'',
                                      JStr (rationale_text rt (first_name_of (param q ''id'' ''1''))
                                              (param q ''tone'' ''Friendly''))),
                                     (''subject_suggestions'', JArr subjectSuggestions),
                                     (''model'',
                                      if truthy model then (case model of Some m \<Rightarrow> m | None \<Rightarrow> JNull)
                                      else JStr ''google/gemma-2-27b-it:free'')]) \<rparr>)))"

definition GET_try ::
  "'w runtime \<Rightarrow> request \<Rightarrow> 'w \<Rightarrow> (error + next_response) \<times> 'w \<times> event list" where
  "GET_try rt req w =
     (case forward rt (backend_request rt ''/generate'' (generate_backend_body rt (query req))) w of
        (Inl e, w', tr) \<Rightarrow> (Inl e, w', tr)
      | (Inr resp, w', tr) \<Rightarrow>
          (case json_result resp of
             Inl e \<Rightarrow> (Inl e, w', tr)
           | Inr data \<Rightarrow> (format_preview rt (query req) data, w', tr)))"

definition GET ::
  "'w runtime \<Rightarrow> request \<Rightarrow> 'w \<Rightarrow> next_response \<times> 'w \<times> event list" where
  "GET rt req w =
     (case GET_try rt req w of
        (Inr res, w', tr) \<Rightarrow> (res, w', tr)
      | (Inl err, w', tr) \<Rightarrow>
          (\<lparr> nr_status = 500,
             nr_body = JObj [(''error'', JStr ''failed to fetch from backend''),
                             (''details'', JStr (message err))] \<rparr>, w', tr))"

section \<open>The batch sequencer of \<open>app/page.tsx\<close>\<close>

text \<open>
  The state variables of \<open>DemoPage\<close> that \<open>handleBatchSend\<close> reads or writes. The handler
  reads \<open>leads\<close>, \<open>selectedLeadIds\<close>, \<open>tone\<close> and \<open>creativity\<close> as they were when it was
  called; \<open>setLeads\<close> is called with an updater, which is applied to the list of the moment.
\<close>

record page =
  leads :: "lead list"
  selectedLeadIds :: "int set"
  tone :: string
  creativity :: rat
  batchSending :: bool
  batchProgress :: "progress option"
  batchResults :: "tally option"
  toast :: "string option"

text \<open>\<open>showToast(msg)\<close> sets the toast; the timer that clears it later is not part of the run.\<close>

definition showToast :: "string \<Rightarrow> page \<Rightarrow> page" where
  "showToast msg pg = pg\<lparr>toast := Some msg\<rparr>"

text \<open>The updater \<open>(prev) => prev.map((l) => (l.id === lead.id ? { ...l, status: s } : l))\<close>.\<close>

definition set_status :: "int \<Rightarrow> string \<Rightarrow> lead list \<Rightarrow> lead list" where
  "set_status i s prev = map (\<lambda>l. if lead_id l = i then l\<lparr>status := Some s\<rparr> else l) prev"

definition full_name :: "lead \<Rightarrow> string" where
  "full_name l = first_name l @ '' '' @ last_name l"

text \<open>\<open>fetch(`/api/email-preview?${q}`)\<close> with the parameters of a batch: one variant.\<close>

definition preview_request :: "'w runtime \<Rightarrow> string \<Rightarrow> rat \<Rightarrow> lead \<Rightarrow> request" where
  "preview_request rt tn cr l =
     \<lparr> url = ''/api/email-preview'',
       query = [(''id'', String_int (lead_id l)),
                (''tone'', tn),
                (''variants'', dec 1),
                (''creativity'', to_string rt (Some (JNum cr)))],
       http_method = ''GET'',
       headers = [],
       body = None \<rparr>"

text \<open>
  \<open>v.length\<close>: it throws on null and undefined, counts an array or a string, is the
  property of that name on an object and undefined on a number or a boolean.
\<close>

fun js_length :: "json option \<Rightarrow> error + json option" where
  "js_length None = Inl (TypeError ''Cannot read properties of undefined (reading length)'')"
| "js_length (Some JNull) = Inl (TypeError ''Cannot read properties of null (reading length)'')"
| "js_length (Some (JArr xs)) = Inr (Some (JNum (of_nat (length xs))))"
| "js_length (Some (JStr s)) = Inr (Some (JNum (of_nat (length s))))"
| "js_length (Some (JObj kvs)) = Inr (map_of kvs ''length'')"
| "js_length (Some v) = Inr None"

text \<open>\<open>v[0]\<close> on a value that is neither null nor undefined.\<close>

fun js_first :: "json option \<Rightarrow> json option" where
  "js_first (Some (JArr xs)) = (case xs of [] \<Rightarrow> None | x # _ \<Rightarrow> Some x)"
| "js_first (Some (JStr s)) = (case s of [] \<Rightarrow> None | c # _ \<Rightarrow> Some (JStr [c]))"
| "js_first (Some (JObj kvs)) = map_of kvs ''0''"
| "js_first v = None"

text \<open>
  The first half of the try block, up to \<open>const variant = previewData.variants[0]\<close>:
  \<open>Inl\<close> is the value thrown, \<open>Inr\<close> the variant.
\<close>

definition generate_step ::
  "'w runtime \<Rightarrow> string \<Rightarrow> rat \<Rightarrow> lead \<Rightarrow> 'w \<Rightarrow> (error + json option) \<times> 'w \<times> event list" where
  "generate_step rt tn cr l w =
     (case fetch rt (preview_request rt tn cr l) w of
        (Inl e, w1) \<Rightarrow> (Inl e, w1, [Fetch (preview_request rt tn cr l)])
      | (Inr previewRes, w1) \<Rightarrow>
          (if \<not> ok previewRes then
             (case text_result previewRes of
                Inl e \<Rightarrow> Inl e
              | Inr errorText \<Rightarrow> Inl (Error (''Preview generation failed: '' @ errorText)))
           else
             (case json_result previewRes of
                Inl e \<Rightarrow> Inl e
              | Inr previewData \<Rightarrow>
                  (case get_prop (Some previewData) ''variants'' of
                     Inl e \<Rightarrow> Inl e
                   | Inr variants \<Rightarrow>
                       (case js_length variants of
                          Inl e \<Rightarrow> Inl e
                        | Inr len \<Rightarrow>
                            if len = Some (JNum 0) then Inl (Error ''No variants generated'')
                            else Inr (js_first variants)))),
           w1, [Fetch (preview_request rt tn cr l)]))"

text \<open>The body of the request to \<open>/api/send-email\<close>; reading \<open>variant.id\<close> may throw.\<close>

definition send_body :: "lead \<Rightarrow> json option \<Rightarrow> string \<Rightarrow> error + json" where
  "send_body l variant captured_at =
     (case get_prop variant ''id'' of
        Inl e \<Rightarrow> Inl e
      | Inr variantId \<Rightarrow>
          (case get_prop variant ''subject'' of
             Inl e \<Rightarrow> Inl e
           | Inr subject \<Rightarrow>
               (case get_prop variant ''body'' of
                  Inl e \<Rightarrow> Inl e
                | Inr body' \<Rightarrow>
                    Inr (JObj ([(''leadId'', JNum (of_int (lead_id l)))]
                               @ obj_field ''variantId'' variantId
                               @ obj_field ''subject'' subject
                               @ obj_field ''body'' body'
                               @ [(''consent_snapshot'',
                                   JObj [(''source'', JStr ''batch_demo''),
                                         (''captured_at'', JStr captured_at),
                                         (''exact_text'', JStr ''Batch send via demo'')])])))))"

definition send_request :: "json \<Rightarrow> request" where
  "send_request b =
     \<lparr> url = ''/api/send-email'',
       query = [],
       http_method = ''POST'',
       headers = [(''Content-Type'', ''application/json'')],
       body = Some b \<rparr>"

text \<open>
  The value thrown by
  \<open>throw new Error(`Send failed: ${sendData.error || sendData.message || sendRes.statusText}`)\<close>;
  on a null payload the read of \<open>sendData.error\<close> throws first.
\<close>

definition send_failed :: "'w runtime \<Rightarrow> response \<Rightarrow> json \<Rightarrow> error" where
  "send_failed rt sendRes sendData =
     (case get_prop (Some sendData) ''error'' of
        Inl e \<Rightarrow> e
      | Inr err \<Rightarrow>
          if truthy err then Error (''Send failed: '' @ to_string rt err)
          else
            (case get_prop (Some sendData) ''message'' of
               Inl e \<Rightarrow> e
             | Inr msg \<Rightarrow>
                 if truthy msg then Error (''Send failed: '' @ to_string rt msg)
                 else Error (''Send failed: '' @ statusText sendRes)))"

text \<open>
  \<open>if (!sendRes.ok || sendData.ok === false || (sendData.status && sendData.status !== "success"))\<close>,
  evaluated from the left: \<open>Inr ()\<close> when the condition is false.
\<close>

definition send_check :: "'w runtime \<Rightarrow> response \<Rightarrow> json \<Rightarrow> error + unit" where
  "send_check rt sendRes sendData =
     (if \<not> ok sendRes then Inl (send_failed rt sendRes sendData)
      else
        (case get_prop (Some sendData) ''ok'' of
           Inl e \<Rightarrow> Inl e
         | Inr ok_field \<Rightarrow>
             if ok_field = Some (JBool False) then Inl (send_failed rt sendRes sendData)
             else
               (case get_prop (Some sendData) ''status'' of
                  Inl e \<Rightarrow> Inl e
                | Inr status_field \<Rightarrow>
                    if truthy status_field \<and> status_field \<noteq> Some (JStr ''success'')
                    then Inl (send_failed rt sendRes sendData)
                    else Inr ())))"

text \<open>The second half of the try block, from the send request to the check of its answer.\<close>

definition send_step ::
  "'w runtime \<Rightarrow> lead \<Rightarrow> json option \<Rightarrow> 'w \<Rightarrow> (error + unit) \<times> 'w \<times> event list" where
  "send_step rt l variant w =
     (case send_body l variant (now_iso rt w) of
        Inl e \<Rightarrow> (Inl e, w, [])
      | Inr b \<Rightarrow>
          (case fetch rt (send_request b) w of
             (Inl e, w1) \<Rightarrow> (Inl e, w1, [Fetch (send_request b)])
           | (Inr sendRes, w1) \<Rightarrow>
               (case json_result sendRes of
                  Inl e \<Rightarrow> (Inl e, w1, [Fetch (send_request b)])
                | Inr sendData \<Rightarrow> (send_check rt sendRes sendData, w1, [Fetch (send_request b)]))))"

text \<open>The whole try block for one lead: \<open>Inr ()\<close> when it reaches \<open>sentCount++\<close>.\<close>

definition try_lead ::
  "'w runtime \<Rightarrow> string \<Rightarrow> rat \<Rightarrow> lead \<Rightarrow> 'w \<Rightarrow> (error + unit) \<times> 'w \<times> event list" where
  "try_lead rt tn cr l w =
     (case generate_step rt tn cr l w of
        (Inl e, w1, tr1) \<Rightarrow> (Inl e, w1, tr1)
      | (Inr variant, w1, tr1) \<Rightarrow>
          (case send_step rt l variant w1 of
             (r, w2, tr2) \<Rightarrow> (r, w2, tr1 @ tr2)))"

text \<open>
  The variables of the loop: the page, \<open>sentCount\<close>, \<open>failedCount\<close> and the world.
\<close>

type_synonym 'w loop_state = "page \<times> nat \<times> nat \<times> 'w"

text \<open>
  One iteration of \<open>for (let i = 0; i < selectedLeads.length; i++)\<close> on \<open>selectedLeads[i]\<close>;
  \<open>rest\<close> are the leads after it, so that \<open>selectedLeads[i + 1]\<close> is the head of \<open>rest\<close>
  and \<open>i < selectedLeads.length - 1\<close> says that \<open>rest\<close> is not empty.
\<close>

definition next_name :: "lead list \<Rightarrow> string option" where
  "next_name rest = (case rest of [] \<Rightarrow> None | nxt # _ \<Rightarrow> Some (full_name nxt))"

definition batch_iteration ::
  "'w runtime \<Rightarrow> string \<Rightarrow> rat \<Rightarrow> nat \<Rightarrow> lead \<Rightarrow> lead list \<Rightarrow> 'w loop_state
     \<Rightarrow> 'w loop_state \<times> event list" where
  "batch_iteration rt tn cr n l rest st =
     (case st of (pg, sentCount, failedCount, w) \<Rightarrow>
        (let p1 = \<lparr> progress_total = n, progress_completed = sentCount,
                    progress_failed = failedCount, progress_current = Some (full_name l) \<rparr>
         in case try_lead rt tn cr l w of
              (Inr u, w1, tr) \<Rightarrow>
                (let p2 = \<lparr> progress_total = n, progress_completed = sentCount + 1,
                            progress_failed = failedCount, progress_current = next_name rest \<rparr>
                 in ((pg\<lparr>leads := set_status (lead_id l) ''sent'' (leads pg), batchProgress := Some p2\<rparr>,
                      sentCount + 1, failedCount, w1),
                     SetProgress p1 # tr @ [SetStatus (lead_id l) ''sent'', SetProgress p2, Delay 500]))
            | (Inl e, w1, tr) \<Rightarrow>
                (let p2 = \<lparr> progress_total = n, progress_completed = sentCount,
                            progress_failed = failedCount + 1, progress_current = next_name rest \<rparr>
                 in ((pg\<lparr>leads := set_status (lead_id l) ''failed'' (leads pg), batchProgress := Some p2\<rparr>,
                      sentCount, failedCount + 1, w1),
                     SetProgress p1 # tr @ [SetStatus (lead_id l) ''failed'', SetProgress p2, Delay 500]))))"

fun batch_loop ::
  "'w runtime \<Rightarrow> string \<Rightarrow> rat \<Rightarrow> nat \<Rightarrow> lead list \<Rightarrow> 'w loop_state
     \<Rightarrow> 'w loop_state \<times> event list" where
  "batch_loop rt tn cr n [] st = (st, [])"
| "batch_loop rt tn cr n (l # rest) st =
     (case batch_iteration rt tn cr n l rest st of
        (st1, tr1) \<Rightarrow>
          (case batch_loop rt tn cr n rest st1 of
             (st2, tr2) \<Rightarrow> (st2, tr1 @ tr2)))"

text \<open>The toast at the end of a batch.\<close>

definition final_toast :: "nat \<Rightarrow> nat \<Rightarrow> string" where
  "final_toast sentCount failedCount =
     (if sentCount > 0 then
        ''Successfully sent '' @ dec sentCount @ '' email'' @ (if sentCount > 1 then ''s'' else [])
          @ (if failedCount > 0 then '', '' @ dec failedCount @ '' failed'' else [])
      else ''All emails failed to send'')"

text \<open>\<open>leads.filter((l) => selectedLeadIds.has(l.id))\<close>.\<close>

definition selected_leads :: "page \<Rightarrow> lead list" where
  "selected_leads pg = filter (\<lambda>l. lead_id l \<in> selectedLeadIds pg) (leads pg)"

definition handleBatchSend :: "'w runtime \<Rightarrow> page \<Rightarrow> 'w \<Rightarrow> page \<times> 'w \<times> event list" where
  "handleBatchSend rt pg w =
     (if selectedLeadIds pg = {} then (showToast ''Please select at least one lead'' pg, w, [])
      else
        (let selectedLeads = selected_leads pg;
             p0 = \<lparr> progress_total = length selectedLeads, progress_completed = 0,
                    progress_failed = 0, progress_current = None \<rparr>
         in case batch_loop rt (tone pg) (creativity pg) (length selectedLeads) selectedLeads
                   (pg\<lparr>batchSending := True, batchProgress := Some p0, batchResults := None\<rparr>, 0, 0, w) of
              ((pg1, sentCount, failedCount, w1), tr) \<Rightarrow>
                (showToast (final_toast sentCount failedCount)
                   (pg1\<lparr>batchProgress := None,
                        batchSending := False,
                        batchResults := Some \<lparr> sent = sentCount, failed = failedCount,
                                                total = length selectedLeads \<rparr>,
                        selectedLeadIds := {}\<rparr>),
                 w1, SetProgress p0 # tr)))"

section \<open>Reading a run\<close>

text \<open>The requests of a run in order, the number of requests and of timers.\<close>

fun forwarded :: "event list \<Rightarrow> request list" where
  "forwarded [] = []"
| "forwarded (Fetch rq # es) = rq # forwarded es"
| "forwarded (e # es) = forwarded es"

fun timers :: "event list \<Rightarrow> nat list" where
  "timers [] = []"
| "timers (Delay ms # es) = ms # timers es"
| "timers (e # es) = timers es"

definition attempts :: "event list \<Rightarrow> nat" where
  "attempts tr = length (forwarded tr)"

definition delays :: "event list \<Rightarrow> nat" where
  "delays tr = length (timers tr)"

text \<open>The status updates of a run in order, each with the identifier of its lead.\<close>

fun status_log :: "event list \<Rightarrow> (int \<times> string) list" where
  "status_log [] = []"
| "status_log (SetStatus i s # es) = (i, s) # status_log es"
| "status_log (e # es) = status_log es"

text \<open>A property of the JSON body of a request.\<close>

definition body_field :: "request \<Rightarrow> string \<Rightarrow> json option" where
  "body_field rq k = (case body rq of Some (JObj kvs) \<Rightarrow> map_of kvs k | _ \<Rightarrow> None)"

definition forwarded_field :: "string \<Rightarrow> event list \<Rightarrow> json option list" where
  "forwarded_field k tr = map (\<lambda>rq. body_field rq k) (forwarded tr)"

text \<open>A property of the JSON answer of a route, and the number of variants in it.\<close>

definition response_field :: "next_response \<Rightarrow> string \<Rightarrow> json option" where
  "response_field r k = (case nr_body r of JObj kvs \<Rightarrow> map_of kvs k | _ \<Rightarrow> None)"

definition variant_count :: "next_response \<Rightarrow> nat option" where
  "variant_count r =
     (case response_field r ''variants'' of Some (JArr vs) \<Rightarrow> Some (length vs) | _ \<Rightarrow> None)"

text \<open>
  The specification's words for the forwarded variant count: an integer that is at most 5,
  and a value within the range from 1 to 5.
\<close>

definition spec_integer_at_most_5 :: "json option \<Rightarrow> bool" where
  "spec_integer_at_most_5 v =
     (case v of Some (JNum x) \<Rightarrow> x = of_int \<lfloor>x\<rfloor> \<and> x \<le> 5 | _ \<Rightarrow> False)"

definition spec_in_range_1_5 :: "json option \<Rightarrow> bool" where
  "spec_in_range_1_5 v =
     (case v of Some (JNum x) \<Rightarrow> x = of_int \<lfloor>x\<rfloor> \<and> 1 \<le> x \<and> x \<le> 5 | _ \<Rightarrow> False)"

text \<open>
  An attempt of the retry loop fails when the fetch rejects or answers with a status that is
  not a success; \<open>attempt_error\<close> is the error the loop keeps from a failed attempt.
\<close>

definition attempt_failed :: "error + response \<Rightarrow> bool" where
  "attempt_failed a = (case a of Inl e \<Rightarrow> True | Inr resp \<Rightarrow> \<not> ok resp)"

definition attempt_error :: "error + response \<Rightarrow> error" where
  "attempt_error a = (case a of Inl e \<Rightarrow> e | Inr resp \<Rightarrow> http_error resp)"

text \<open>The status that an iteration of the batch gives a lead, from the outcome of its try block.\<close>

definition outcome_status :: "error + unit \<Rightarrow> string" where
  "outcome_status r = (case r of Inr u \<Rightarrow> ''sent'' | Inl e \<Rightarrow> ''failed'')"

text \<open>
  The generation step as the page sees it. It has failed when the request to the preview
  route rejects, is answered with a status that is not a success (the route answers 500 once
  its retries are used up) or with a body that does not parse; it has returned zero variants
  when the answer is a success whose \<open>variants\<close> is the empty array.
\<close>

definition generation_failed :: "error + response \<Rightarrow> bool" where
  "generation_failed out =
     (case out of
        Inl e \<Rightarrow> True
      | Inr res \<Rightarrow> \<not> ok res \<or> (case json_result res of Inl e \<Rightarrow> True | Inr d \<Rightarrow> False))"

definition zero_variants :: "error + response \<Rightarrow> bool" where
  "zero_variants out =
     (case out of
        Inl e \<Rightarrow> False
      | Inr res \<Rightarrow>
          ok res \<and>
          (case json_result res of
             Inr (JObj kvs) \<Rightarrow> map_of kvs ''variants'' = Some (JArr [])
           | _ \<Rightarrow> False))"

text \<open>
  When the payload of a send signals failure. In the specification's words: an \<open>ok\<close> field
  equal to false, or a \<open>status\<close> field that is present and not equal to \<open>"success"\<close>. As
  the condition of the page tests it: an \<open>ok\<close> property that is \<open>false\<close>, or a \<open>status\<close>
  property that is truthy and not \<open>"success"\<close>.
\<close>

definition spec_signals_failure :: "json \<Rightarrow> bool" where
  "spec_signals_failure d =
     (case d of
        JObj kvs \<Rightarrow>
          map_of kvs ''ok'' = Some (JBool False) \<or>
          (case map_of kvs ''status'' of None \<Rightarrow> False | Some v \<Rightarrow> v \<noteq> JStr ''success'')
      | _ \<Rightarrow> False)"

definition signals_failure :: "json \<Rightarrow> bool" where
  "signals_failure d =
     (case d of
        JObj kvs \<Rightarrow>
          map_of kvs ''ok'' = Some (JBool False) \<or>
          (truthy (map_of kvs ''status'') \<and> map_of kvs ''status'' \<noteq> Some (JStr ''success''))
      | _ \<Rightarrow> False)"

text \<open>
  A request of the page concerns the lead \<open>i\<close> when it is the preview request with that
  \<open>id\<close> or the send request with that \<open>leadId\<close>. Two runtimes agree except on the lead
  \<open>b\<close> when every request that concerns another lead has the same outcome in both, whatever
  the world, and they have the same clock reading and the same \<open>String\<close>.
\<close>

definition concerns :: "request \<Rightarrow> int \<Rightarrow> bool" where
  "concerns rq i =
     ((url rq = ''/api/email-preview'' \<and> map_of (query rq) ''id'' = Some (String_int i)) \<or>
      (url rq = ''/api/send-email'' \<and> body_field rq ''leadId'' = Some (JNum (of_int i))))"

definition agree_except :: "'w runtime \<Rightarrow> 'v runtime \<Rightarrow> int \<Rightarrow> bool" where
  "agree_except rt rt' b =
     ((\<forall>rq i w w'. i \<noteq> b \<and> concerns rq i \<longrightarrow> fst (fetch rt rq w) = fst (fetch rt' rq w')) \<and>
      (\<forall>w w'. now_iso rt w = now_iso rt' w') \<and>
      to_string rt = to_string rt')"

text \<open>
  A deterministic stub of the outside: the answer to a request depends on the request only,
  not on what happened before, and the clock stands still.
\<close>

definition deterministic_stub :: "'w runtime \<Rightarrow> bool" where
  "deterministic_stub rt =
     ((\<forall>rq w w'. fst (fetch rt rq w) = fst (fetch rt rq w')) \<and>
      (\<forall>w w'. now_iso rt w = now_iso rt w'))"

section \<open>A concrete runtime for running the code on examples\<close>

text \<open>
  \<open>Number_dec\<close> is \<open>Number(s)\<close> on the texts made of an optional sign, decimal digits and
  an optional fraction, where the value read is a double (\<open>0\<close>, \<open>-3\<close>, \<open>2.5\<close>), and on
  texts that are not numeric at all, which give NaN. Exponents, hexadecimal literals,
  \<open>Infinity\<close> and surrounding white space are outside it.
\<close>

definition digit_of :: "char \<Rightarrow> nat option" where
  "digit_of c = map_of (zip ''0123456789'' [0, 1, 2, 3, 4, 5, 6, 7, 8, 9]) c"

fun digits_value :: "string \<Rightarrow> nat \<Rightarrow> nat option" where
  "digits_value [] acc = Some acc"
| "digits_value (c # cs) acc =
     (case digit_of c of None \<Rightarrow> None | Some d \<Rightarrow> digits_value cs (10 * acc + d))"

definition unsigned_dec :: "string \<Rightarrow> rat option" where
  "unsigned_dec s =
     (let ip = takeWhile (\<lambda>c. c \<noteq> CHR ''.'') s;
          fp = drop (length ip) s
      in if s = [] \<or> s = ''.'' then None
         else
           (case fp of
              [] \<Rightarrow> map_option of_nat (digits_value ip 0)
            | dot # ds \<Rightarrow>
                (case (digits_value ip 0, digits_value ds 0) of
                   (Some n, Some m) \<Rightarrow> Some (of_nat n + of_nat m / 10 ^ length ds)
                 | _ \<Rightarrow> None)))"

definition Number_dec :: "string \<Rightarrow> jsnum" where
  "Number_dec s =
     (case s of
        [] \<Rightarrow> Fin 0
      | c # cs \<Rightarrow>
          if c = CHR ''-'' then (case unsigned_dec cs of None \<Rightarrow> NaN | Some x \<Rightarrow> Fin (- x))
          else if c = CHR ''+'' then (case unsigned_dec cs of None \<Rightarrow> NaN | Some x \<Rightarrow> Fin x)
          else (case unsigned_dec s of None \<Rightarrow> NaN | Some x \<Rightarrow> Fin x))"

text \<open>
  \<open>String(v)\<close> on undefined, null, booleans, strings and whole numbers; the text of other
  numbers and of arrays and objects is not needed by the examples.
\<close>

fun to_string_basic :: "json option \<Rightarrow> string" where
  "to_string_basic None = ''undefined''"
| "to_string_basic (Some JNull) = ''null''"
| "to_string_basic (Some (JBool b)) = (if b then ''true'' else ''false'')"
| "to_string_basic (Some (JStr s)) = s"
| "to_string_basic (Some (JNum x)) = (if x = of_int \<lfloor>x\<rfloor> then String_int \<lfloor>x\<rfloor> else ''?'')"
| "to_string_basic (Some v) = ''?''"

text \<open>Lower case of the letters A to Z.\<close>

definition lower_char :: "char \<Rightarrow> char" where
  "lower_char c =
     (case map_of (zip ''ABCDEFGHIJKLMNOPQRSTUVWXYZ'' ''abcdefghijklmnopqrstuvwxyz'') c of
        None \<Rightarrow> c
      | Some d \<Rightarrow> d)"

text \<open>
  The runtime of the examples. Its world is the number of requests made so far; \<open>f\<close> gives
  the outcome of a request from the request and that number.
\<close>

definition stub_runtime :: "(request \<Rightarrow> nat \<Rightarrow> error + response) \<Rightarrow> nat runtime" where
  "stub_runtime f =
     \<lparr> fetch = (\<lambda>rq n. (f rq n, Suc n)),
       now_iso = (\<lambda>n. ''2025-01-01T00:00:00.000Z''),
       Number = Number_dec,
       to_string = to_string_basic,
       toLowerCase = map lower_char,
       env_BACKEND_API_URL = None \<rparr>"

text \<open>
  A response with a JSON body. \<open>txt\<close> stands for the text of the body; the examples leave
  it empty in answers whose text the code never reads.
\<close>

definition reply :: "nat \<Rightarrow> string \<Rightarrow> string \<Rightarrow> json \<Rightarrow> response" where
  "reply st stx txt v =
     \<lparr> http_status = st, statusText = stx, text_result = Inr txt, json_result = Inr v \<rparr>"

text \<open>A response whose body is plain text, which does not parse as JSON.\<close>

definition text_reply :: "nat \<Rightarrow> string \<Rightarrow> string \<Rightarrow> response" where
  "text_reply st stx txt =
     \<lparr> http_status = st, statusText = stx, text_result = Inr txt,
       json_result = Inl (Error ''Unexpected token in JSON'') \<rparr>"

section \<open>Example data\<close>

definition good_payload :: json where
  "good_payload =
     JObj [(''variants'', JArr [JObj [(''id'', JStr ''v1''), (''subject'', JStr ''Hello John''),
                                      (''body'', JStr ''Hi John, a quick note.''),
                                      (''used_tokens'', JArr [JStr ''first_name''])]]),
           (''model'', JStr ''stub-model'')]"

definition flaky_backend :: "request \<Rightarrow> nat \<Rightarrow> error + response" where
  "flaky_backend rq n =
     (if n = 0 then Inl (Error ''fetch failed'')
      else if n = 1 then Inr (text_reply 503 ''Service Unavailable'' ''busy'')
      else Inr (reply 200 ''OK'' [] good_payload))"


definition send_data :: json where
  "send_data =
     JObj [(''leadId'', JNum 1), (''variantId'', JStr ''v1''), (''subject'', JStr ''Hello John''),
           (''body'', JStr ''Hi John, a quick note.''),
           (''consent_snapshot'',
            JObj [(''source'', JStr ''demo''), (''captured_at'', JStr ''2025-01-01T00:00:00.000Z''),
                  (''exact_text'', JStr ''User opted in via demo form'')])]"

definition preview_req :: request where
  "preview_req =
     \<lparr> url = ''/api/email-preview'',
       query = [(''id'', ''2''), (''tone'', ''Professional''), (''variants'', ''3''),
                (''creativity'', ''1'')],
       http_method = ''GET'', headers = [], body = None \<rparr>"

definition steady_backend :: "request \<Rightarrow> nat \<Rightarrow> error + response" where
  "steady_backend rq n = Inr (reply 200 ''OK'' [] good_payload)"

definition preview_req_with :: "string \<Rightarrow> request" where
  "preview_req_with v = preview_req\<lparr>query := [(''id'', ''2''), (''variants'', v)]\<rparr>"

text \<open>The leads that \<open>app/api/leads/route.ts\<close> answers, as the page holds them.\<close>

definition mk_lead ::
  "int \<Rightarrow> string \<Rightarrow> string \<Rightarrow> nat \<Rightarrow> string \<Rightarrow> string \<Rightarrow> string \<Rightarrow> string \<Rightarrow> lead" where
  "mk_lead i fname lname a z intr em ins =
     \<lparr> lead_id = i, first_name = fname, last_name = lname, age = Some a, zip_code = Some z,
       interest = Some intr, email = em, insight = Some ins, status = None \<rparr>"

definition lead_john :: lead where
  "lead_john = mk_lead 1 ''John'' ''Doe'' 35 ''90210'' ''Life Insurance'' ''john@example.com''
     ''Recently searched for coverage options''"

definition lead_sarah :: lead where
  "lead_sarah = mk_lead 2 ''Sarah'' ''Smith'' 42 ''10011'' ''Retirement Planning'' ''sarah@example.com''
     ''Interested in family protection''"

definition lead_carlos :: lead where
  "lead_carlos = mk_lead 3 ''Carlos'' ''Diaz'' 30 ''33101'' ''New parent coverage'' ''carlos@example.com''
     ''New parent, looking to secure family''"

definition lead_aisha :: lead where
  "lead_aisha = mk_lead 4 ''Aisha'' ''Khan'' 29 ''02139'' ''Term Life'' ''aisha@example.com''
     ''Compared term vs whole life''"

definition lead_mark :: lead where
  "lead_mark = mk_lead 5 ''Mark'' ''Lee'' 50 ''60605'' ''Retirement & legacy'' ''mark@example.com''
     ''Wants legacy planning''"

definition demo_leads :: "lead list" where
  "demo_leads = [lead_john, lead_sarah, lead_carlos, lead_aisha, lead_mark]"

definition demo_page :: "int set \<Rightarrow> page" where
  "demo_page sel =
     \<lparr> leads = demo_leads, selectedLeadIds = sel, tone = ''Friendly'', creativity = 1,
       batchSending = False, batchProgress = None, batchResults = None, toast = None \<rparr>"

text \<open>
  Stubs of the two routes as the page reaches them. \<open>api_stub bad_preview send_payload\<close>
  answers a preview with 500 for the lead whose \<open>id\<close> is \<open>bad_preview\<close> (for none when
  that is \<open>None\<close>) and with one variant otherwise, and a send with status 200 and the payload that \<open>send_payload\<close> gives
  for the \<open>leadId\<close> of the request.
\<close>

definition api_stub ::
  "string option \<Rightarrow> (json option \<Rightarrow> json) \<Rightarrow> request \<Rightarrow> nat \<Rightarrow> error + response" where
  "api_stub bad_preview send_payload rq n =
     (if url rq = ''/api/email-preview'' then
        (if bad_preview \<noteq> None \<and> map_of (query rq) ''id'' = bad_preview
         then Inr (reply 500 ''Internal Server Error'' ''error''
                     (JObj [(''error'', JStr ''failed to fetch from backend''),
                            (''details'', JStr ''fetch failed'')]))
         else Inr (reply 200 ''OK'' [] good_payload))
      else Inr (reply 200 ''OK'' [] (send_payload (body_field rq ''leadId''))))"

definition ok_true :: "json option \<Rightarrow> json" where
  "ok_true i = JObj [(''ok'', JBool True)]"

definition ok_false_for_2 :: "json option \<Rightarrow> json" where
  "ok_false_for_2 i = (if i = Some (JNum 2) then JObj [(''ok'', JBool False)] else JObj [(''ok'', JBool True)])"

definition empty_status :: "json option \<Rightarrow> json" where
  "empty_status i = JObj [(''status'', JStr [])]"

definition null_payload :: "json option \<Rightarrow> json" where
  "null_payload i = JNull"

text \<open>
  A stub of the two routes in which every preview succeeds with no variant at all, and every
  send would succeed.
\<close>

definition empty_preview_api :: "request \<Rightarrow> nat \<Rightarrow> error + response" where
  "empty_preview_api rq n =
     (if url rq = ''/api/email-preview''
      then Inr (reply 200 ''OK'' [] (JObj [(''variants'', JArr []), (''model'', JStr ''stub-model'')]))
      else Inr (reply 200 ''OK'' [] (JObj [(''ok'', JBool True)])))"

section \<open>Properties of the retry loop\<close>

text \<open>Evaluating the example runtime.\<close>

lemma stub_fetch: "fetch (stub_runtime f) rq n = (f rq n, Suc n)"
  by (simp add: stub_runtime_def)

lemma ok_reply: "ok (reply st stx txt v) = (200 \<le> st \<and> st \<le> 299)"
  by (simp add: ok_def reply_def)

lemma ok_text_reply: "ok (text_reply st stx txt) = (200 \<le> st \<and> st \<le> 299)"
  by (simp add: ok_def text_reply_def)

text \<open>One iteration of the loop, after a failed attempt and after a successful one.\<close>

lemma retry_failed_step:
  assumes "fetch rt rq w = (a, w1)" "attempt_failed a"
  shows "retry rt rq (Suc n) response lastError w =
           (case retry rt rq n (case a of Inl e \<Rightarrow> response | Inr resp \<Rightarrow> Some resp)
                   (Some (attempt_error a)) w1 of
              (r, w2, tr) \<Rightarrow> (r, w2, Fetch rq # Delay 1000 # tr))"
  using assms by (cases a) (simp_all add: attempt_failed_def attempt_error_def)

lemma retry_ok_step:
  assumes "fetch rt rq w = (Inr resp, w1)" "ok resp"
  shows "retry rt rq (Suc n) response lastError w = ((Some resp, None), w1, [Fetch rq])"
  using assms by simp

lemma forward_third:
  assumes "fetch rt rq w0 = (a1, w1)" "attempt_failed a1"
      and "fetch rt rq w1 = (a2, w2)" "attempt_failed a2"
      and "fetch rt rq w2 = (Inr r3, w3)" "ok r3"
  shows "forward rt rq w0 = (Inr r3, w3, [Fetch rq, Delay 1000, Fetch rq, Delay 1000, Fetch rq])"
  unfolding forward_def numeral_3_eq_3
  by (simp only: retry_failed_step[OF assms(1,2)] retry_failed_step[OF assms(3,4)]
        retry_ok_step[OF assms(5,6)]) (simp add: assms(6))




lemma format_preview_variants:
  "format_preview rt q payload = Inr res \<Longrightarrow>
   nr_status res = 200 \<and> get_prop (Some payload) ''variants'' = Inr (response_field res ''variants'')"
proof -
  assume fp: "format_preview rt q payload = Inr res"
  then obtain vs where vs: "get_prop (Some payload) ''variants'' = Inr vs"
    by (auto simp: format_preview_def split: sum.splits)
  with fp obtain ss where ss: "subject_suggestions vs = Inr ss"
    by (auto simp: format_preview_def split: sum.splits)
  then obtain v where v: "vs = Some v" by (cases vs) simp_all
  from fp vs ss v show ?thesis
    by (auto simp: format_preview_def response_field_def split: sum.splits)
qed

text \<open>
  C2: when the backend fails the first two attempts (a rejected fetch or a status that is not
  a success) and answers the third with a success status and a payload that parses, the
  forwarder gives the third response after exactly three requests and two timers of 1000 ms,
  with no request after the success; \<open>POST\<close> answers 200 with that payload, and \<open>GET\<close>
  answers 200 with what it formats from that payload, its \<open>variants\<close> among it, when the
  payload has the form the route expects.
\<close>

theorem third_attempt_succeeds:
  assumes "fetch rt rq w0 = (a1, w1)" and "attempt_failed a1"
      and "fetch rt rq w1 = (a2, w2)" and "attempt_failed a2"
      and "fetch rt rq w2 = (Inr r3, w3)" and "ok r3" and "json_result r3 = Inr payload"
  shows "forward rt rq w0 = (Inr r3, w3, [Fetch rq, Delay 1000, Fetch rq, Delay 1000, Fetch rq])
       \<and> attempts (snd (snd (forward rt rq w0))) = 3
       \<and> delays (snd (snd (forward rt rq w0))) = 2
       \<and> (send_backend_body data = Inr b \<longrightarrow> rq = backend_request rt ''/send'' b \<longrightarrow>
            POST rt (Inr data) w0 =
              (\<lparr> nr_status = 200, nr_body = payload \<rparr>, w3,
               [Fetch rq, Delay 1000, Fetch rq, Delay 1000, Fetch rq]))
       \<and> (rq = backend_request rt ''/generate'' (generate_backend_body rt (query req)) \<longrightarrow>
            format_preview rt (query req) payload = Inr res \<longrightarrow>
            GET rt req w0 = (res, w3, [Fetch rq, Delay 1000, Fetch rq, Delay 1000, Fetch rq])
            \<and> nr_status res = 200
            \<and> get_prop (Some payload) ''variants'' = Inr (response_field res ''variants''))"
proof -
  have fw: "forward rt rq w0 = (Inr r3, w3, [Fetch rq, Delay 1000, Fetch rq, Delay 1000, Fetch rq])"
    by (rule forward_third[OF assms(1-6)])
  have n: "attempts (snd (snd (forward rt rq w0))) = 3" "delays (snd (snd (forward rt rq w0))) = 2"
    by (simp_all add: fw attempts_def delays_def)
  have post: "POST rt (Inr data) w0 =
              (\<lparr> nr_status = 200, nr_body = payload \<rparr>, w3,
               [Fetch rq, Delay 1000, Fetch rq, Delay 1000, Fetch rq])"
    if "send_backend_body data = Inr b" "rq = backend_request rt ''/send'' b"
    using that fw assms(7) by (simp add: POST_def POST_try_def)
  have get: "GET rt req w0 = (res, w3, [Fetch rq, Delay 1000, Fetch rq, Delay 1000, Fetch rq])"
    if "rq = backend_request rt ''/generate'' (generate_backend_body rt (query req))"
       "format_preview rt (query req) payload = Inr res"
    using that fw assms(7) by (simp add: GET_def GET_try_def)
  from fw n post get format_preview_variants[of rt "query req" payload res] show ?thesis by blast
qed

theorem third_attempt_succeeds_witness:
  "fst (POST (stub_runtime flaky_backend) (Inr send_data) 0) =
     \<lparr> nr_status = 200, nr_body = good_payload \<rparr>
   \<and> attempts (snd (snd (POST (stub_runtime flaky_backend) (Inr send_data) 0))) = 3
   \<and> delays (snd (snd (POST (stub_runtime flaky_backend) (Inr send_data) 0))) = 2
   \<and> nr_status (fst (GET (stub_runtime flaky_backend) preview_req 0)) = 200
   \<and> attempts (snd (snd (GET (stub_runtime flaky_backend) preview_req 0))) = 3
   \<and> delays (snd (snd (GET (stub_runtime flaky_backend) preview_req 0))) = 2"
proof -
  let ?rt = "stub_runtime flaky_backend"
  let ?r3 = "reply 200 ''OK'' [] good_payload"
  have f1: "attempt_failed (Inl (Error ''fetch failed''))"
    by (simp add: attempt_failed_def)
  have f2: "attempt_failed (Inr (text_reply 503 ''Service Unavailable'' ''busy''))"
    by (simp add: attempt_failed_def ok_text_reply)
  have o3: "ok ?r3" by (simp add: ok_reply)
  have j3: "json_result ?r3 = Inr good_payload" by (simp add: reply_def)
  have h1: "fetch ?rt rq 0 = (Inl (Error ''fetch failed''), 1)" for rq
    by (simp add: stub_fetch flaky_backend_def)
  have h2: "fetch ?rt rq 1 = (Inr (text_reply 503 ''Service Unavailable'' ''busy''), 2)" for rq
    by (simp add: stub_fetch flaky_backend_def)
  have h3: "fetch ?rt rq 2 = (Inr ?r3, 3)" for rq
    by (simp add: stub_fetch flaky_backend_def)
  obtain b where b: "send_backend_body send_data = Inr b"
    by (simp add: send_backend_body_def send_data_def)
  obtain res where res: "format_preview ?rt (query preview_req) good_payload = Inr res"
    by (simp add: format_preview_def good_payload_def)
  have st: "nr_status res = 200"
    using res by (auto simp: format_preview_def good_payload_def)
  note p = third_attempt_succeeds[OF h1 f1 h2 f2 h3 o3 j3,
      where rq = "backend_request ?rt ''/send'' b" and data = send_data and b = b]
  note g = third_attempt_succeeds[OF h1 f1 h2 f2 h3 o3 j3,
      where rq = "backend_request ?rt ''/generate'' (generate_backend_body ?rt (query preview_req))"
        and req = preview_req and res = res]
  from p b have "POST ?rt (Inr send_data) 0 =
     (\<lparr> nr_status = 200, nr_body = good_payload \<rparr>, 3,
      [Fetch (backend_request ?rt ''/send'' b), Delay 1000,
       Fetch (backend_request ?rt ''/send'' b), Delay 1000,
       Fetch (backend_request ?rt ''/send'' b)])"
    by blast
  moreover from g res have "GET ?rt preview_req 0 =
     (res, 3,
      [Fetch (backend_request ?rt ''/generate'' (generate_backend_body ?rt (query preview_req))), Delay 1000,
       Fetch (backend_request ?rt ''/generate'' (generate_backend_body ?rt (query preview_req))), Delay 1000,
       Fetch (backend_request ?rt ''/generate'' (generate_backend_body ?rt (query preview_req)))])"
    by blast
  ultimately show ?thesis
    using st by (simp add: attempts_def delays_def)
qed



section \<open>Properties of what the routes forward\<close>

text \<open>Every request of the retry loop is the request it was given.\<close>

lemma retry_forwarded: "set (forwarded (snd (snd (retry rt rq n r e w)))) \<subseteq> {rq}"
proof (induction n arbitrary: r e w)
  case 0
  show ?case by simp
next
  case (Suc n)
  obtain a w1 where f: "fetch rt rq w = (a, w1)" by (cases "fetch rt rq w")
  show ?case
  proof (cases a)
    case (Inl err)
    with f Suc.IH[of r "Some err" w1] show ?thesis
      by (simp add: case_prod_beta)
  next
    case (Inr resp)
    with f Suc.IH[of "Some resp" "Some (http_error resp)" w1] show ?thesis
      by (simp add: case_prod_beta)
  qed
qed

lemma forward_trace: "snd (snd (forward rt rq w)) = snd (snd (retry rt rq 3 None None w))"
  by (simp add: forward_def case_prod_beta split: option.splits)

lemma forward_forwarded: "set (forwarded (snd (snd (forward rt rq w)))) \<subseteq> {rq}"
  by (simp only: forward_trace retry_forwarded)

lemma POST_trace:
  "snd (snd (POST rt req_json w)) =
     (case req_json of
        Inl e \<Rightarrow> []
      | Inr data \<Rightarrow>
          (case send_backend_body data of
             Inl e \<Rightarrow> []
           | Inr b \<Rightarrow> snd (snd (forward rt (backend_request rt ''/send'' b) w))))"
  by (simp add: POST_def POST_try_def case_prod_beta split: sum.splits)

lemma retry_first_ok:
  assumes "fetch rt rq w = (Inr resp, w1)" "ok resp"
  shows "forward rt rq w = (Inr resp, w1, [Fetch rq])"
  using assms by (simp add: forward_def numeral_3_eq_3)

lemma send_backend_body_recipient:
  "send_backend_body data = Inr b \<Longrightarrow>
   body_field (backend_request rt ''/send'' b) ''recipient_email'' = Some (JStr ''test@example.com'')"
  by (auto simp: send_backend_body_def body_field_def backend_request_def split: sum.splits)

lemma send_backend_body_ignores_leadId:
  assumes "\<forall>k. k \<noteq> ''leadId'' \<longrightarrow> map_of kvs k = map_of kvs' k"
  shows "send_backend_body (JObj kvs) = send_backend_body (JObj kvs')"
  using assms by (simp add: send_backend_body_def)

text \<open>
  C7: every request that \<open>POST\<close> of the send-email route sends to the backend carries
  \<open>recipient_email\<close> equal to \<open>test@example.com\<close>, whatever the incoming request is; and two
  incoming bodies that differ only in \<open>leadId\<close> give the same run of the route, so the same
  forwarded bodies.
\<close>

theorem send_route_recipient_fixed:
  "(\<forall>rq \<in> set (forwarded (snd (snd (POST rt req_json w)))).
      body_field rq ''recipient_email'' = Some (JStr ''test@example.com''))
   \<and> ((\<forall>k. k \<noteq> ''leadId'' \<longrightarrow> map_of kvs k = map_of kvs' k) \<longrightarrow>
        POST rt (Inr (JObj kvs)) w = POST rt (Inr (JObj kvs')) w)"
proof (intro conjI ballI impI)
  fix rq assume rq: "rq \<in> set (forwarded (snd (snd (POST rt req_json w))))"
  show "body_field rq ''recipient_email'' = Some (JStr ''test@example.com'')"
  proof (cases req_json)
    case (Inl e)
    with rq show ?thesis by (simp add: POST_trace)
  next
    case (Inr data)
    show ?thesis
    proof (cases "send_backend_body data")
      case (Inl e)
      with Inr rq show ?thesis by (simp add: POST_trace)
    next
      case b: (Inr b)
      with Inr rq forward_forwarded[of rt "backend_request rt ''/send'' b" w]
      have "rq = backend_request rt ''/send'' b" by (auto simp: POST_trace)
      with send_backend_body_recipient[OF b] show ?thesis by simp
    qed
  qed
next
  assume "\<forall>k. k \<noteq> ''leadId'' \<longrightarrow> map_of kvs k = map_of kvs' k"
  then have "send_backend_body (JObj kvs) = send_backend_body (JObj kvs')"
    by (rule send_backend_body_ignores_leadId)
  then show "POST rt (Inr (JObj kvs)) w = POST rt (Inr (JObj kvs')) w"
    by (simp add: POST_def POST_try_def)
qed

theorem send_route_recipient_fixed_witness:
  "forwarded_field ''recipient_email'' (snd (snd (POST (stub_runtime steady_backend) (Inr send_data) 0)))
     = [Some (JStr ''test@example.com'')]
   \<and> POST (stub_runtime steady_backend)
        (Inr (JObj [(''leadId'', JNum 1), (''subject'', JStr ''Hello'')])) 0
     = POST (stub_runtime steady_backend)
        (Inr (JObj [(''leadId'', JNum 2), (''subject'', JStr ''Hello'')])) 0"
proof -
  let ?rt = "stub_runtime steady_backend"
  obtain b where b: "send_backend_body send_data = Inr b"
    by (simp add: send_backend_body_def send_data_def)
  have "forward ?rt (backend_request ?rt ''/send'' b) 0 =
          (Inr (reply 200 ''OK'' [] good_payload), 1, [Fetch (backend_request ?rt ''/send'' b)])"
    by (rule retry_first_ok) (simp_all add: stub_fetch steady_backend_def ok_reply)
  then have tr: "forwarded (snd (snd (POST ?rt (Inr send_data) 0))) = [backend_request ?rt ''/send'' b]"
    by (simp add: POST_trace b)
  have k: "\<forall>k. k \<noteq> ''leadId'' \<longrightarrow>
             map_of [(''leadId'', JNum 1), (''subject'', JStr ''Hello'')] k
           = map_of [(''leadId'', JNum 2), (''subject'', JStr ''Hello'')] k"
    by simp
  note t = send_route_recipient_fixed[of ?rt "Inr send_data" 0
      "[(''leadId'', JNum 1), (''subject'', JStr ''Hello'')]"
      "[(''leadId'', JNum 2), (''subject'', JStr ''Hello'')]"]
  from t tr have "body_field (backend_request ?rt ''/send'' b) ''recipient_email''
                  = Some (JStr ''test@example.com'')"
    by simp
  moreover from t k have "POST ?rt (Inr (JObj [(''leadId'', JNum 1), (''subject'', JStr ''Hello'')])) 0
     = POST ?rt (Inr (JObj [(''leadId'', JNum 2), (''subject'', JStr ''Hello'')])) 0"
    by blast
  ultimately show ?thesis
    by (simp add: forwarded_field_def tr)
qed

lemma GET_trace:
  "snd (snd (GET rt req w)) =
     snd (snd (forward rt (backend_request rt ''/generate'' (generate_backend_body rt (query req))) w))"
  by (simp add: GET_def GET_try_def case_prod_beta split: sum.splits)

lemma capped_shape:
  "num_json (Math_min n (Fin 5)) = JNull \<or> (\<exists>x. num_json (Math_min n (Fin 5)) = JNum x \<and> x \<le> 5)"
  by (cases n) simp_all

lemma generate_body_variants:
  "body_field (backend_request rt ''/generate'' (generate_backend_body rt q)) ''variants''
     = Some (num_json (Math_min (Number rt (param q ''variants'' ''3'')) (Fin 5)))"
  by (simp add: body_field_def backend_request_def generate_backend_body_def Let_def)

lemma steady_GET_forwarded:
  "forwarded (snd (snd (GET (stub_runtime steady_backend) req 0)))
     = [backend_request (stub_runtime steady_backend) ''/generate''
          (generate_backend_body (stub_runtime steady_backend) (query req))]"
proof -
  let ?rt = "stub_runtime steady_backend"
  let ?rq = "backend_request ?rt ''/generate'' (generate_backend_body ?rt (query req))"
  have "forward ?rt ?rq 0 = (Inr (reply 200 ''OK'' [] good_payload), 1, [Fetch ?rq])"
    by (rule retry_first_ok) (simp_all add: stub_fetch steady_backend_def ok_reply)
  then show ?thesis by (simp add: GET_trace)
qed

lemma Number_dec_examples:
  "Number_dec ''0'' = Fin 0" "Number_dec ''7'' = Fin 7" "Number_dec ''2.5'' = Fin (5 / 2)"
  "Number_dec ''abc'' = NaN" "Number_dec ''-3'' = Fin (- 3)"
  by (simp_all add: Number_dec_def unsigned_dec_def digit_of_def)

lemma steady_variants:
  "forwarded_field ''variants'' (snd (snd (GET (stub_runtime steady_backend) (preview_req_with v) 0)))
     = [Some (num_json (Math_min (Number_dec v) (Fin 5)))]"
  by (simp add: forwarded_field_def steady_GET_forwarded generate_body_variants)
     (simp add: stub_runtime_def preview_req_with_def param_def)

lemma floor_five_halves: "\<lfloor>5 / 2 :: rat\<rfloor> = 2"
  by (rule floor_unique) simp_all

text \<open>
  C8, as stated: the forwarded \<open>variants\<close> is an integer of at most 5, within the range from
  1 to 5. The route only caps the count with \<open>Math.min(variants, 5)\<close>: a query with
  \<open>variants=0\<close> forwards 0, \<open>variants=2.5\<close> forwards 2.5, and \<open>variants=abc\<close> forwards
  null (JSON.stringify of NaN).
\<close>

theorem preview_variants_counterexample:
  "forwarded_field ''variants'' (snd (snd (GET (stub_runtime steady_backend) (preview_req_with ''0'') 0)))
     = [Some (JNum 0)]
   \<and> \<not> spec_in_range_1_5 (Some (JNum 0))
   \<and> forwarded_field ''variants'' (snd (snd (GET (stub_runtime steady_backend) (preview_req_with ''2.5'') 0)))
     = [Some (JNum (5 / 2))]
   \<and> \<not> spec_integer_at_most_5 (Some (JNum (5 / 2)))
   \<and> forwarded_field ''variants'' (snd (snd (GET (stub_runtime steady_backend) (preview_req_with ''abc'') 0)))
     = [Some JNull]
   \<and> \<not> spec_integer_at_most_5 (Some JNull)"
  by (simp add: steady_variants Number_dec_examples spec_in_range_1_5_def spec_integer_at_most_5_def floor_five_halves)

text \<open>
  C8, amended: every request that \<open>GET\<close> of the email-preview route sends to the backend
  carries \<open>variants\<close> equal to \<open>Math.min(n, 5)\<close> as JSON.stringify writes it, where \<open>n\<close> is
  \<open>Number\<close> of the query parameter (of \<open>"3"\<close> when it is absent): either null, or a number
  that is at most 5. Nothing bounds it from below or makes it whole.
\<close>

theorem preview_variants_capped:
  "\<forall>rq \<in> set (forwarded (snd (snd (GET rt req w)))).
      body_field rq ''variants''
        = Some (num_json (Math_min (Number rt (param (query req) ''variants'' ''3'')) (Fin 5)))
      \<and> (body_field rq ''variants'' = Some JNull
          \<or> (\<exists>x. body_field rq ''variants'' = Some (JNum x) \<and> x \<le> 5))"
proof
  fix rq assume "rq \<in> set (forwarded (snd (snd (GET rt req w))))"
  with forward_forwarded[of rt "backend_request rt ''/generate'' (generate_backend_body rt (query req))" w]
  have rq: "rq = backend_request rt ''/generate'' (generate_backend_body rt (query req))"
    by (auto simp: GET_trace)
  show "body_field rq ''variants''
        = Some (num_json (Math_min (Number rt (param (query req) ''variants'' ''3'')) (Fin 5)))
      \<and> (body_field rq ''variants'' = Some JNull
          \<or> (\<exists>x. body_field rq ''variants'' = Some (JNum x) \<and> x \<le> 5))"
    using capped_shape[of "Number rt (param (query req) ''variants'' ''3'')"]
    by (simp add: rq generate_body_variants)
qed

theorem preview_variants_capped_witness:
  "forwarded_field ''variants'' (snd (snd (GET (stub_runtime steady_backend) (preview_req_with ''7'') 0)))
     = [Some (JNum 5)]"
proof -
  let ?rt = "stub_runtime steady_backend"
  let ?rq = "backend_request ?rt ''/generate'' (generate_backend_body ?rt (query (preview_req_with ''7'')))"
  have n: "Number ?rt (param (query (preview_req_with ''7'')) ''variants'' ''3'') = Fin 7"
    by (simp add: stub_runtime_def preview_req_with_def param_def Number_dec_examples)
  from preview_variants_capped[of ?rt "preview_req_with ''7''" 0]
  have "body_field ?rq ''variants'' = Some (JNum 5)"
    by (simp add: steady_GET_forwarded n)
  then show ?thesis
    by (simp add: forwarded_field_def steady_GET_forwarded)
qed

section \<open>Re-running a preview\<close>

text \<open>Against a deterministic stub the retry loop does not depend on the world it starts in.\<close>

lemma retry_deterministic:
  assumes "deterministic_stub rt"
  shows "fst (retry rt rq n r e w) = fst (retry rt rq n r e w')
       \<and> snd (snd (retry rt rq n r e w)) = snd (snd (retry rt rq n r e w'))"
proof (induction n arbitrary: r e w w')
  case 0
  show ?case by simp
next
  case (Suc n)
  obtain a w1 where f: "fetch rt rq w = (a, w1)" by (cases "fetch rt rq w")
  obtain a' w1' where f': "fetch rt rq w' = (a', w1')" by (cases "fetch rt rq w'")
  from assms have "fst (fetch rt rq w) = fst (fetch rt rq w')"
    unfolding deterministic_stub_def by blast
  with f f' have same: "a' = a" by simp
  show ?case
  proof (cases a)
    case (Inl err)
    with f f' same Suc.IH[of r "Some err" w1 w1'] show ?thesis
      by (simp add: case_prod_beta)
  next
    case (Inr resp)
    with f f' same Suc.IH[of "Some resp" "Some (http_error resp)" w1 w1'] show ?thesis
      by (simp add: case_prod_beta)
  qed
qed

lemma forward_deterministic:
  assumes "deterministic_stub rt"
  shows "fst (forward rt rq w) = fst (forward rt rq w')
       \<and> snd (snd (forward rt rq w)) = snd (snd (forward rt rq w'))"
  using retry_deterministic[OF assms, of rq 3 None None w w']
  by (simp add: forward_def case_prod_beta split: option.splits)

lemma GET_deterministic:
  assumes "deterministic_stub rt"
  shows "fst (GET rt req w) = fst (GET rt req w')
       \<and> snd (snd (GET rt req w)) = snd (snd (GET rt req w'))"
  using forward_deterministic[OF assms,
      of "backend_request rt ''/generate'' (generate_backend_body rt (query req))" w w']
  by (simp add: GET_def GET_try_def case_prod_beta split: sum.splits)

lemma steady_deterministic: "deterministic_stub (stub_runtime steady_backend)"
  by (simp add: deterministic_stub_def stub_runtime_def steady_backend_def)

text \<open>
  C9: against a deterministic stub of the backend, two runs of \<open>GET\<close> of the email-preview
  route on the same request give the same answer, whatever happened between them, and so the
  same number of variants and the same rationale, subject_suggestions and model; they also
  send the same requests. In particular the second of two runs in a row answers as the first.
\<close>

theorem preview_rerun_same_result:
  assumes "deterministic_stub rt"
  shows "fst (GET rt req w') = fst (GET rt req w)
       \<and> variant_count (fst (GET rt req w')) = variant_count (fst (GET rt req w))
       \<and> snd (snd (GET rt req w')) = snd (snd (GET rt req w))
       \<and> fst (GET rt req (fst (snd (GET rt req w)))) = fst (GET rt req w)"
  using GET_deterministic[OF assms, of req w' w]
        GET_deterministic[OF assms, of req "fst (snd (GET rt req w))" w]
  by simp

theorem preview_rerun_same_result_witness:
  "fst (GET (stub_runtime steady_backend) preview_req 1) = fst (GET (stub_runtime steady_backend) preview_req 0)
   \<and> fst (snd (GET (stub_runtime steady_backend) preview_req 0)) = 1
   \<and> variant_count (fst (GET (stub_runtime steady_backend) preview_req 1)) = Some 1"
proof -
  let ?rt = "stub_runtime steady_backend"
  let ?rq = "backend_request ?rt ''/generate'' (generate_backend_body ?rt (query preview_req))"
  have fw: "forward ?rt ?rq 0 = (Inr (reply 200 ''OK'' [] good_payload), 1, [Fetch ?rq])"
    by (rule retry_first_ok) (simp_all add: stub_fetch steady_backend_def ok_reply)
  have w1: "fst (snd (GET ?rt preview_req 0)) = 1"
    by (simp add: GET_def GET_try_def fw reply_def case_prod_beta split: sum.splits)
  have vc: "variant_count (fst (GET ?rt preview_req 0)) = Some 1"
    by (simp add: GET_def GET_try_def fw reply_def format_preview_def good_payload_def
          variant_count_def response_field_def)
  from preview_rerun_same_result[OF steady_deterministic, of preview_req 1 0] vc w1
  show ?thesis by simp
qed

section \<open>Properties of the batch sequencer\<close>

text \<open>The events of one lead: its try block only sends requests.\<close>

lemma status_log_append: "status_log (xs @ ys) = status_log xs @ status_log ys"
  by (induction xs rule: status_log.induct) simp_all

lemma forwarded_append: "forwarded (xs @ ys) = forwarded xs @ forwarded ys"
  by (induction xs rule: forwarded.induct) simp_all

lemma generate_step_trace:
  "snd (snd (generate_step rt tn cr l w)) = [Fetch (preview_request rt tn cr l)]"
  by (simp add: generate_step_def case_prod_beta split: sum.splits)

lemma send_step_trace:
  "snd (snd (send_step rt l v w)) =
     (case send_body l v (now_iso rt w) of Inl e \<Rightarrow> [] | Inr b \<Rightarrow> [Fetch (send_request b)])"
  by (simp add: send_step_def case_prod_beta split: sum.splits)

lemma try_lead_status_log: "status_log (snd (snd (try_lead rt tn cr l w))) = []"
proof -
  obtain r w1 tr where g: "generate_step rt tn cr l w = (r, w1, tr)"
    by (cases "generate_step rt tn cr l w")
  with generate_step_trace[of rt tn cr l w] have tr: "tr = [Fetch (preview_request rt tn cr l)]"
    by simp
  show ?thesis
  proof (cases r)
    case (Inl e)
    with g tr show ?thesis by (simp add: try_lead_def)
  next
    case (Inr v)
    with g tr send_step_trace[of rt l v w1] show ?thesis
      by (simp add: try_lead_def case_prod_beta status_log_append split: sum.splits)
  qed
qed

lemma batch_iteration_sent:
  assumes "try_lead rt tn cr l w = (Inr u, w1, tr)"
  shows "batch_iteration rt tn cr n l rest (pg, s, f, w) =
     ((pg\<lparr>leads := set_status (lead_id l) ''sent'' (leads pg),
          batchProgress := Some \<lparr> progress_total = n, progress_completed = s + 1,
                                    progress_failed = f, progress_current = next_name rest \<rparr>\<rparr>,
       s + 1, f, w1),
      SetProgress \<lparr> progress_total = n, progress_completed = s, progress_failed = f,
                     progress_current = Some (full_name l) \<rparr>
        # tr @ [SetStatus (lead_id l) ''sent'',
                SetProgress \<lparr> progress_total = n, progress_completed = s + 1,
                               progress_failed = f, progress_current = next_name rest \<rparr>,
                Delay 500])"
  using assms by (simp add: batch_iteration_def Let_def)

lemma batch_iteration_failed:
  assumes "try_lead rt tn cr l w = (Inl e, w1, tr)"
  shows "batch_iteration rt tn cr n l rest (pg, s, f, w) =
     ((pg\<lparr>leads := set_status (lead_id l) ''failed'' (leads pg),
          batchProgress := Some \<lparr> progress_total = n, progress_completed = s,
                                    progress_failed = f + 1, progress_current = next_name rest \<rparr>\<rparr>,
       s, f + 1, w1),
      SetProgress \<lparr> progress_total = n, progress_completed = s, progress_failed = f,
                     progress_current = Some (full_name l) \<rparr>
        # tr @ [SetStatus (lead_id l) ''failed'',
                SetProgress \<lparr> progress_total = n, progress_completed = s,
                               progress_failed = f + 1, progress_current = next_name rest \<rparr>,
                Delay 500])"
  using assms by (simp add: batch_iteration_def Let_def)

text \<open>One iteration, by the outcome of the try block.\<close>

lemma batch_iteration_outcome:
  "\<exists>pg1 tr1.
     batch_iteration rt tn cr n l rest (pg, s, f, w) =
       ((pg1, (case fst (try_lead rt tn cr l w) of Inr u \<Rightarrow> s + 1 | Inl e \<Rightarrow> s),
              (case fst (try_lead rt tn cr l w) of Inr u \<Rightarrow> f | Inl e \<Rightarrow> f + 1),
              fst (snd (try_lead rt tn cr l w))), tr1)
     \<and> leads pg1 = set_status (lead_id l) (outcome_status (fst (try_lead rt tn cr l w))) (leads pg)
     \<and> status_log tr1 = [(lead_id l, outcome_status (fst (try_lead rt tn cr l w)))]"
proof -
  obtain r w1 tr where t: "try_lead rt tn cr l w = (r, w1, tr)"
    by (cases "try_lead rt tn cr l w")
  from try_lead_status_log[of rt tn cr l w] t have sl: "status_log tr = []" by simp
  show ?thesis
  proof (cases r)
    case (Inl e)
    with t batch_iteration_failed[of rt tn cr l w e w1 tr n rest pg s f] sl show ?thesis
      by (simp add: outcome_status_def status_log_append)
  next
    case (Inr u)
    with t batch_iteration_sent[of rt tn cr l w u w1 tr n rest pg s f] sl show ?thesis
      by (simp add: outcome_status_def status_log_append)
  qed
qed

lemma batch_iteration_counts:
  assumes "batch_iteration rt tn cr n l rest (pg, s, f, w) = ((pg1, s1, f1, w1), tr1)"
  shows "(s1 = s + 1 \<and> f1 = f \<and> status_log tr1 = [(lead_id l, ''sent'')])
       \<or> (s1 = s \<and> f1 = f + 1 \<and> status_log tr1 = [(lead_id l, ''failed'')])"
  using batch_iteration_outcome[of rt tn cr n l rest pg s f w] assms
  by (cases "fst (try_lead rt tn cr l w)") (auto simp: outcome_status_def)

lemma batch_loop_counts:
  assumes "batch_loop rt tn cr n ls (pg, s, f, w) = ((pg', s', f', w'), tr)"
  shows "s' = s + length (filter (\<lambda>p. snd p = ''sent'') (status_log tr))
       \<and> f' = f + length (filter (\<lambda>p. snd p = ''failed'') (status_log tr))
       \<and> s' + f' = s + f + length ls
       \<and> map fst (status_log tr) = map lead_id ls"
  using assms
proof (induction ls arbitrary: pg s f w tr)
  case Nil
  then show ?case by simp
next
  case (Cons l rest)
  obtain pg1 s1 f1 w1 tr1 where it: "batch_iteration rt tn cr n l rest (pg, s, f, w) = ((pg1, s1, f1, w1), tr1)"
    by (cases "batch_iteration rt tn cr n l rest (pg, s, f, w)") auto
  obtain st2 tr2 where lp: "batch_loop rt tn cr n rest (pg1, s1, f1, w1) = (st2, tr2)"
    by (cases "batch_loop rt tn cr n rest (pg1, s1, f1, w1)")
  from Cons.prems it lp have st2: "st2 = (pg', s', f', w')" and tr: "tr = tr1 @ tr2"
    by simp_all
  note ih = Cons.IH[OF lp[unfolded st2]]
  from batch_iteration_counts[OF it] ih show ?case
    by (auto simp: tr status_log_append)
qed

text \<open>The definitions that a run on an example unfolds.\<close>

lemmas page_defs =
  handleBatchSend_def selected_leads_def batch_iteration_def try_lead_def generate_step_def
  send_step_def send_check_def send_failed_def send_body_def send_request_def preview_request_def
  set_status_def full_name_def next_name_def showToast_def final_toast_def
  String_int_def dec.simps digit_char_def ok_def

lemmas stub_defs =
  stub_runtime_def api_stub_def reply_def text_reply_def good_payload_def body_field_def
  demo_page_def demo_leads_def lead_john_def lead_sarah_def lead_carlos_def lead_aisha_def
  lead_mark_def mk_lead_def ok_true_def ok_false_for_2_def empty_status_def
  null_payload_def

lemma handleBatchSend_run:
  assumes "selectedLeadIds pg \<noteq> {}"
    and "batch_loop rt (tone pg) (creativity pg) (length (selected_leads pg)) (selected_leads pg)
           (pg\<lparr>batchSending := True,
               batchProgress := Some \<lparr> progress_total = length (selected_leads pg),
                                         progress_completed = 0, progress_failed = 0,
                                         progress_current = None \<rparr>,
               batchResults := None\<rparr>, 0, 0, w) = ((pg1, s, f, w1), tr)"
  shows "handleBatchSend rt pg w =
           (showToast (final_toast s f)
              (pg1\<lparr>batchProgress := None, batchSending := False,
                   batchResults := Some \<lparr> sent = s, failed = f, total = length (selected_leads pg) \<rparr>,
                   selectedLeadIds := {}\<rparr>),
            w1,
            SetProgress \<lparr> progress_total = length (selected_leads pg), progress_completed = 0,
                           progress_failed = 0, progress_current = None \<rparr> # tr)"
  using assms by (simp add: handleBatchSend_def Let_def)

lemma selected_count:
  assumes "distinct (map lead_id (leads pg))" and "selectedLeadIds pg \<subseteq> lead_id ` set (leads pg)"
  shows "length (selected_leads pg) = card (selectedLeadIds pg)"
proof -
  have d: "distinct (map lead_id (selected_leads pg))"
    unfolding selected_leads_def using assms(1) by (rule distinct_map_filter)
  have "set (map lead_id (selected_leads pg)) = selectedLeadIds pg"
    using assms(2) by (auto simp: selected_leads_def)
  with distinct_card[OF d] show ?thesis by simp
qed

text \<open>
  C1: after a batch over the selected leads (the leads whose identifier is selected, N of
  them), the tally has \<open>total\<close> = N and \<open>sent + failed = total\<close>: every selected lead gets
  exactly one status update, in the order of the list, \<open>sent\<close> counts the updates to sent
  and \<open>failed\<close> those to failed. When the identifiers of the leads are distinct and the
  selection is made of them, N is also the size of the selection. Every iteration of the loop
  adds one to exactly one of the two counters.
\<close>

theorem batch_tally_accounts_for_every_lead:
  assumes "selectedLeadIds pg \<noteq> {}"
  shows "batchResults (fst (handleBatchSend rt pg w)) =
           Some \<lparr> sent = length (filter (\<lambda>p. snd p = ''sent'')
                                   (status_log (snd (snd (handleBatchSend rt pg w))))),
                  failed = length (filter (\<lambda>p. snd p = ''failed'')
                                     (status_log (snd (snd (handleBatchSend rt pg w))))),
                  total = length (selected_leads pg) \<rparr>
       \<and> length (filter (\<lambda>p. snd p = ''sent'') (status_log (snd (snd (handleBatchSend rt pg w)))))
         + length (filter (\<lambda>p. snd p = ''failed'') (status_log (snd (snd (handleBatchSend rt pg w)))))
         = length (selected_leads pg)
       \<and> map fst (status_log (snd (snd (handleBatchSend rt pg w)))) = map lead_id (selected_leads pg)
       \<and> (distinct (map lead_id (leads pg)) \<and> selectedLeadIds pg \<subseteq> lead_id ` set (leads pg)
            \<longrightarrow> length (selected_leads pg) = card (selectedLeadIds pg))
       \<and> ((fst (snd (fst (batch_iteration rt tn cr n l rest (pg0, s0, f0, w0)))) = s0 + 1
             \<and> fst (snd (snd (fst (batch_iteration rt tn cr n l rest (pg0, s0, f0, w0))))) = f0)
          \<or> (fst (snd (fst (batch_iteration rt tn cr n l rest (pg0, s0, f0, w0)))) = s0
             \<and> fst (snd (snd (fst (batch_iteration rt tn cr n l rest (pg0, s0, f0, w0))))) = f0 + 1))"
proof -
  let ?p0 = "\<lparr> progress_total = length (selected_leads pg), progress_completed = 0,
                progress_failed = 0, progress_current = None \<rparr>"
  let ?pg0 = "pg\<lparr>batchSending := True, batchProgress := Some ?p0, batchResults := None\<rparr>"
  obtain pg1 s f w1 tr where lp:
    "batch_loop rt (tone pg) (creativity pg) (length (selected_leads pg)) (selected_leads pg)
       (?pg0, 0, 0, w) = ((pg1, s, f, w1), tr)"
    by (cases "batch_loop rt (tone pg) (creativity pg) (length (selected_leads pg)) (selected_leads pg)
                 (?pg0, 0, 0, w)") auto
  note run = handleBatchSend_run[OF assms lp]
  have step: "(fst (snd (fst (batch_iteration rt tn cr n l rest (pg0, s0, f0, w0)))) = s0 + 1
             \<and> fst (snd (snd (fst (batch_iteration rt tn cr n l rest (pg0, s0, f0, w0))))) = f0)
          \<or> (fst (snd (fst (batch_iteration rt tn cr n l rest (pg0, s0, f0, w0)))) = s0
             \<and> fst (snd (snd (fst (batch_iteration rt tn cr n l rest (pg0, s0, f0, w0))))) = f0 + 1)"
    using batch_iteration_outcome[of rt tn cr n l rest pg0 s0 f0 w0]
    by (cases "fst (try_lead rt tn cr l w0)") auto
  from batch_loop_counts[OF lp] selected_count[of pg] step show ?thesis
    by (simp add: run showToast_def)
qed

theorem batch_tally_accounts_for_every_lead_witness:
  "batchResults (fst (handleBatchSend (stub_runtime (api_stub (Some ''2'') ok_true)) (demo_page {1, 2, 3}) 0))
     = Some \<lparr> sent = 2, failed = 1, total = 3 \<rparr>
   \<and> card (selectedLeadIds (demo_page {1, 2, 3})) = 3"
proof -
  let ?run = "handleBatchSend (stub_runtime (api_stub (Some ''2'') ok_true)) (demo_page {1, 2, 3}) 0"
  have sel: "selectedLeadIds (demo_page {1, 2, 3}) \<noteq> {}"
    by (simp add: demo_page_def)
  have n: "length (selected_leads (demo_page {1, 2, 3})) = 3"
    by (simp add: selected_leads_def stub_defs)
  have log: "status_log (snd (snd ?run)) = [(1, ''sent''), (2, ''failed''), (3, ''sent'')]"
    by (simp add: page_defs stub_defs Let_def)
  from batch_tally_accounts_for_every_lead[OF sel, of "stub_runtime (api_stub (Some ''2'') ok_true)" 0]
  show ?thesis by (simp add: log n) (simp add: demo_page_def)
qed

text \<open>
  C10: with an empty selection \<open>handleBatchSend\<close> only shows the toast that asks for a
  selection: it sends no request, and the leads, the batch progress and the batch results
  stay as they were.
\<close>

theorem empty_selection_is_noop:
  assumes "selectedLeadIds pg = {}"
  shows "handleBatchSend rt pg w = (pg\<lparr>toast := Some ''Please select at least one lead''\<rparr>, w, [])
       \<and> forwarded (snd (snd (handleBatchSend rt pg w))) = []
       \<and> leads (fst (handleBatchSend rt pg w)) = leads pg
       \<and> batchProgress (fst (handleBatchSend rt pg w)) = batchProgress pg
       \<and> batchResults (fst (handleBatchSend rt pg w)) = batchResults pg"
  using assms by (simp add: handleBatchSend_def showToast_def)

theorem empty_selection_is_noop_witness:
  "handleBatchSend (stub_runtime (api_stub (Some ''2'') ok_true)) (demo_page {}) 0
     = ((demo_page {})\<lparr>toast := Some ''Please select at least one lead''\<rparr>, 0, [])"
proof -
  have "selectedLeadIds (demo_page {}) = {}" by (simp add: demo_page_def)
  from empty_selection_is_noop[OF this, of "stub_runtime (api_stub (Some ''2'') ok_true)" 0]
  show ?thesis by simp
qed

subsection \<open>A lead whose generation fails\<close>

lemma generate_step_no_variant:
  assumes "fetch rt (preview_request rt tn cr l) w = (out, w1)"
      and "generation_failed out \<or> zero_variants out"
  shows "\<exists>e. generate_step rt tn cr l w = (Inl e, w1, [Fetch (preview_request rt tn cr l)])"
proof (cases out)
  case (Inl e)
  with assms(1) show ?thesis by (simp add: generate_step_def)
next
  case (Inr res)
  show ?thesis
  proof (cases "ok res")
    case False
    with Inr assms(1) show ?thesis
      by (simp add: generate_step_def split: sum.splits)
  next
    case True
    show ?thesis
    proof (cases "json_result res")
      case (Inl e)
      with True Inr assms(1) show ?thesis by (simp add: generate_step_def)
    next
      case d: (Inr d)
      with True Inr assms(2) obtain kvs where "d = JObj kvs" "map_of kvs ''variants'' = Some (JArr [])"
        by (auto simp: generation_failed_def zero_variants_def split: json.splits)
      with d True Inr assms(1) show ?thesis by (simp add: generate_step_def)
    qed
  qed
qed

lemma generation_failed_500:
  "generation_failed (Inr (reply 500 stx txt v))"
  by (simp add: generation_failed_def ok_reply)

lemma zero_variants_empty:
  "zero_variants (Inr (reply 200 stx txt (JObj [(''variants'', JArr []), (''model'', m)])))"
  by (simp add: zero_variants_def ok_def reply_def)

text \<open>
  C4: when the generation step of a lead fails (the preview request rejects, or is answered
  with a status that is not a success, as the route does once its retries are used up, or
  with a body that does not parse) or succeeds with zero variants, the try block of the lead
  throws after the preview request: that request is the only one of the iteration, so no
  send request is made. The lead is recorded as failed: after the iteration every lead with
  its identifier has the status \<open>failed\<close> and every other lead is as it was, the update is
  logged, the failed counter has gone up by one and the sent counter has not moved. The loop
  then goes on with the remaining leads, from that state.
\<close>

theorem failed_generation_skips_send:
  assumes "fetch rt (preview_request rt tn cr l) w = (out, w1)"
      and "generation_failed out \<or> zero_variants out"
  shows "(\<exists>e. try_lead rt tn cr l w = (Inl e, w1, [Fetch (preview_request rt tn cr l)]))
       \<and> forwarded (snd (batch_iteration rt tn cr n l rest (pg, s, f, w))) = [preview_request rt tn cr l]
       \<and> url (preview_request rt tn cr l) = ''/api/email-preview''
       \<and> leads (fst (fst (batch_iteration rt tn cr n l rest (pg, s, f, w))))
           = map (\<lambda>x. if lead_id x = lead_id l then x\<lparr>status := Some ''failed''\<rparr> else x) (leads pg)
       \<and> (\<forall>x \<in> set (leads (fst (fst (batch_iteration rt tn cr n l rest (pg, s, f, w))))).
             lead_id x = lead_id l \<longrightarrow> status x = Some ''failed'')
       \<and> (l \<in> set (leads pg) \<longrightarrow>
             l\<lparr>status := Some ''failed''\<rparr>
               \<in> set (leads (fst (fst (batch_iteration rt tn cr n l rest (pg, s, f, w))))))
       \<and> status_log (snd (batch_iteration rt tn cr n l rest (pg, s, f, w))) = [(lead_id l, ''failed'')]
       \<and> fst (snd (fst (batch_iteration rt tn cr n l rest (pg, s, f, w)))) = s
       \<and> fst (snd (snd (fst (batch_iteration rt tn cr n l rest (pg, s, f, w))))) = f + 1
       \<and> batch_loop rt tn cr n (l # rest) (pg, s, f, w) =
           (fst (batch_loop rt tn cr n rest
                   (pg\<lparr>leads := map (\<lambda>x. if lead_id x = lead_id l
                                           then x\<lparr>status := Some ''failed''\<rparr> else x) (leads pg),
                       batchProgress := Some \<lparr> progress_total = n, progress_completed = s,
                                                 progress_failed = f + 1,
                                                 progress_current = next_name rest \<rparr>\<rparr>,
                    s, f + 1, w1)),
            [SetProgress \<lparr> progress_total = n, progress_completed = s, progress_failed = f,
                            progress_current = Some (full_name l) \<rparr>,
             Fetch (preview_request rt tn cr l),
             SetStatus (lead_id l) ''failed'',
             SetProgress \<lparr> progress_total = n, progress_completed = s, progress_failed = f + 1,
                            progress_current = next_name rest \<rparr>,
             Delay 500]
            @ snd (batch_loop rt tn cr n rest
                   (pg\<lparr>leads := map (\<lambda>x. if lead_id x = lead_id l
                                           then x\<lparr>status := Some ''failed''\<rparr> else x) (leads pg),
                       batchProgress := Some \<lparr> progress_total = n, progress_completed = s,
                                                 progress_failed = f + 1,
                                                 progress_current = next_name rest \<rparr>\<rparr>,
                    s, f + 1, w1)))"
proof -
  let ?upd = "\<lambda>x. if lead_id x = lead_id l then x\<lparr>status := Some ''failed''\<rparr> else x"
  from generate_step_no_variant[OF assms] obtain e
    where g: "generate_step rt tn cr l w = (Inl e, w1, [Fetch (preview_request rt tn cr l)])" ..
  then have t: "try_lead rt tn cr l w = (Inl e, w1, [Fetch (preview_request rt tn cr l)])"
    by (simp add: try_lead_def)
  note it = batch_iteration_failed[OF t, of n rest pg s f]
  have st: "set_status (lead_id l) ''failed'' (leads pg) = map ?upd (leads pg)"
    by (simp add: set_status_def)
  have all: "\<forall>x \<in> set (map ?upd (leads pg)). lead_id x = lead_id l \<longrightarrow> status x = Some ''failed''"
    by auto
  have mem: "l \<in> set (leads pg) \<longrightarrow> l\<lparr>status := Some ''failed''\<rparr> \<in> set (map ?upd (leads pg))"
    by force
  have a: "\<exists>e. try_lead rt tn cr l w = (Inl e, w1, [Fetch (preview_request rt tn cr l)])"
    using t by blast
  have b: "forwarded (snd (batch_iteration rt tn cr n l rest (pg, s, f, w))) = [preview_request rt tn cr l]"
    by (simp add: it)
  have c: "url (preview_request rt tn cr l) = ''/api/email-preview''"
    by (simp add: preview_request_def)
  have d: "leads (fst (fst (batch_iteration rt tn cr n l rest (pg, s, f, w)))) = map ?upd (leads pg)"
    by (simp add: it st)
  have lg: "status_log (snd (batch_iteration rt tn cr n l rest (pg, s, f, w))) = [(lead_id l, ''failed'')]"
    by (simp add: it)
  have cnt: "fst (snd (fst (batch_iteration rt tn cr n l rest (pg, s, f, w)))) = s"
            "fst (snd (snd (fst (batch_iteration rt tn cr n l rest (pg, s, f, w))))) = f + 1"
    by (simp_all add: it)
  have lp: "batch_loop rt tn cr n (l # rest) (pg, s, f, w) =
           (fst (batch_loop rt tn cr n rest
                   (pg\<lparr>leads := map ?upd (leads pg),
                       batchProgress := Some \<lparr> progress_total = n, progress_completed = s,
                                                 progress_failed = f + 1,
                                                 progress_current = next_name rest \<rparr>\<rparr>,
                    s, f + 1, w1)),
            [SetProgress \<lparr> progress_total = n, progress_completed = s, progress_failed = f,
                            progress_current = Some (full_name l) \<rparr>,
             Fetch (preview_request rt tn cr l),
             SetStatus (lead_id l) ''failed'',
             SetProgress \<lparr> progress_total = n, progress_completed = s, progress_failed = f + 1,
                            progress_current = next_name rest \<rparr>,
             Delay 500]
            @ snd (batch_loop rt tn cr n rest
                   (pg\<lparr>leads := map ?upd (leads pg),
                       batchProgress := Some \<lparr> progress_total = n, progress_completed = s,
                                                 progress_failed = f + 1,
                                                 progress_current = next_name rest \<rparr>\<rparr>,
                    s, f + 1, w1)))"
    by (simp add: it st case_prod_beta)
  from all mem have all': "\<forall>x \<in> set (leads (fst (fst (batch_iteration rt tn cr n l rest (pg, s, f, w))))).
             lead_id x = lead_id l \<longrightarrow> status x = Some ''failed''"
    and mem': "l \<in> set (leads pg) \<longrightarrow>
             l\<lparr>status := Some ''failed''\<rparr>
               \<in> set (leads (fst (fst (batch_iteration rt tn cr n l rest (pg, s, f, w)))))"
    by (simp_all only: d)
  from a b c d all' mem' lg cnt lp show ?thesis
    by (intro conjI)
qed

theorem failed_generation_skips_send_witness:
  "forwarded (snd (batch_iteration (stub_runtime (api_stub (Some ''2'') ok_true)) ''Friendly'' 1 2
                     lead_sarah [lead_carlos] (demo_page {2, 3}, 0, 0, 0)))
     = [preview_request (stub_runtime (api_stub (Some ''2'') ok_true)) ''Friendly'' 1 lead_sarah]
   \<and> map status (leads (fst (fst (batch_iteration (stub_runtime (api_stub (Some ''2'') ok_true))
                     ''Friendly'' 1 2 lead_sarah [lead_carlos] (demo_page {2, 3}, 0, 0, 0)))))
     = [None, Some ''failed'', None, None, None]
   \<and> lead_sarah\<lparr>status := Some ''failed''\<rparr>
       \<in> set (leads (fst (fst (batch_iteration (stub_runtime (api_stub (Some ''2'') ok_true))
                     ''Friendly'' 1 2 lead_sarah [lead_carlos] (demo_page {2, 3}, 0, 0, 0)))))
   \<and> fst (snd (snd (fst (batch_iteration (stub_runtime (api_stub (Some ''2'') ok_true))
                     ''Friendly'' 1 2 lead_sarah [lead_carlos] (demo_page {2, 3}, 0, 0, 0))))) = 1
   \<and> status_log (snd (batch_loop (stub_runtime (api_stub (Some ''2'') ok_true)) ''Friendly'' 1 2
                     [lead_sarah, lead_carlos] (demo_page {2, 3}, 0, 0, 0)))
     = [(2, ''failed''), (3, ''sent'')]
   \<and> map status (leads (fst (fst (batch_loop (stub_runtime (api_stub (Some ''2'') ok_true)) ''Friendly'' 1 2
                     [lead_sarah, lead_carlos] (demo_page {2, 3}, 0, 0, 0)))))
     = [None, Some ''failed'', Some ''sent'', None, None]
   \<and> forwarded (snd (batch_iteration (stub_runtime empty_preview_api) ''Friendly'' 1 1
                     lead_john [] (demo_page {1}, 0, 0, 0)))
     = [preview_request (stub_runtime empty_preview_api) ''Friendly'' 1 lead_john]
   \<and> map status (leads (fst (fst (batch_iteration (stub_runtime empty_preview_api) ''Friendly'' 1 1
                     lead_john [] (demo_page {1}, 0, 0, 0)))))
     = [Some ''failed'', None, None, None, None]
   \<and> status_log (snd (batch_iteration (stub_runtime empty_preview_api) ''Friendly'' 1 1
                     lead_john [] (demo_page {1}, 0, 0, 0)))
     = [(1, ''failed'')]"
proof -
  let ?rt = "stub_runtime (api_stub (Some ''2'') ok_true)"
  let ?out = "Inr (reply 500 ''Internal Server Error'' ''error''
                     (JObj [(''error'', JStr ''failed to fetch from backend''),
                            (''details'', JStr ''fetch failed'')])) :: error + response"
  let ?upd = "\<lambda>x. if lead_id x = lead_id lead_sarah then x\<lparr>status := Some ''failed''\<rparr> else x"
  let ?st1 = "((demo_page {2, 3})\<lparr>leads := map ?upd (leads (demo_page {2, 3})),
                       batchProgress := Some \<lparr> progress_total = 2, progress_completed = 0,
                                                 progress_failed = 0 + 1,
                                                 progress_current = next_name [lead_carlos] \<rparr>\<rparr>,
                    0, 0 + 1, 1)"
  have f: "fetch ?rt (preview_request ?rt ''Friendly'' 1 lead_sarah) 0 = (?out, 1)"
    by (simp add: stub_fetch api_stub_def preview_request_def lead_sarah_def mk_lead_def
          String_int_def dec.simps digit_char_def)
  have g: "generation_failed ?out \<or> zero_variants ?out"
    by (simp add: generation_failed_500)
  note t = failed_generation_skips_send[OF f g, of 2 "[lead_carlos]" "demo_page {2, 3}" 0 0]
  have id2: "lead_id lead_sarah = 2" by (simp add: lead_sarah_def mk_lead_def)
  have sarah: "lead_sarah \<in> set (leads (demo_page {2, 3}))"
    by (simp add: demo_page_def demo_leads_def)
  have sts: "map status (map ?upd (leads (demo_page {2, 3}))) = [None, Some ''failed'', None, None, None]"
    by (simp add: stub_defs)
  have rest_log: "status_log (snd (batch_loop ?rt ''Friendly'' 1 2 [lead_carlos] ?st1)) = [(3, ''sent'')]"
    by (simp add: page_defs stub_defs Let_def)
  have rest_leads: "map status (leads (fst (fst (batch_loop ?rt ''Friendly'' 1 2 [lead_carlos] ?st1))))
                      = [None, Some ''failed'', Some ''sent'', None, None]"
    by (simp add: page_defs stub_defs Let_def)
  from t have c1: "forwarded (snd (batch_iteration ?rt ''Friendly'' 1 2 lead_sarah [lead_carlos]
                     (demo_page {2, 3}, 0, 0, 0))) = [preview_request ?rt ''Friendly'' 1 lead_sarah]"
    by blast
  from t have "leads (fst (fst (batch_iteration ?rt ''Friendly'' 1 2 lead_sarah [lead_carlos]
                     (demo_page {2, 3}, 0, 0, 0)))) = map ?upd (leads (demo_page {2, 3}))"
    by blast
  then have c2: "map status (leads (fst (fst (batch_iteration ?rt ''Friendly'' 1 2 lead_sarah [lead_carlos]
                     (demo_page {2, 3}, 0, 0, 0))))) = [None, Some ''failed'', None, None, None]"
    by (simp only: sts)
  from t sarah have c3: "lead_sarah\<lparr>status := Some ''failed''\<rparr>
       \<in> set (leads (fst (fst (batch_iteration ?rt ''Friendly'' 1 2 lead_sarah [lead_carlos]
                     (demo_page {2, 3}, 0, 0, 0)))))"
    by blast
  from t have c4: "fst (snd (snd (fst (batch_iteration ?rt ''Friendly'' 1 2 lead_sarah [lead_carlos]
                     (demo_page {2, 3}, 0, 0, 0))))) = 1"
    by simp
  from t have lp: "batch_loop ?rt ''Friendly'' 1 2 [lead_sarah, lead_carlos] (demo_page {2, 3}, 0, 0, 0) =
           (fst (batch_loop ?rt ''Friendly'' 1 2 [lead_carlos] ?st1),
            [SetProgress \<lparr> progress_total = 2, progress_completed = 0, progress_failed = 0,
                            progress_current = Some (full_name lead_sarah) \<rparr>,
             Fetch (preview_request ?rt ''Friendly'' 1 lead_sarah),
             SetStatus (lead_id lead_sarah) ''failed'',
             SetProgress \<lparr> progress_total = 2, progress_completed = 0, progress_failed = 0 + 1,
                            progress_current = next_name [lead_carlos] \<rparr>,
             Delay 500]
            @ snd (batch_loop ?rt ''Friendly'' 1 2 [lead_carlos] ?st1))"
    by blast
  have c5: "status_log (snd (batch_loop ?rt ''Friendly'' 1 2 [lead_sarah, lead_carlos]
                     (demo_page {2, 3}, 0, 0, 0))) = [(2, ''failed''), (3, ''sent'')]"
    by (simp only: lp snd_conv status_log.simps append.simps rest_log) (simp only: id2)
  have c6: "map status (leads (fst (fst (batch_loop ?rt ''Friendly'' 1 2 [lead_sarah, lead_carlos]
                     (demo_page {2, 3}, 0, 0, 0))))) = [None, Some ''failed'', Some ''sent'', None, None]"
    by (simp only: lp fst_conv rest_leads)
  let ?rt0 = "stub_runtime empty_preview_api"
  let ?out0 = "Inr (reply 200 ''OK'' [] (JObj [(''variants'', JArr []), (''model'', JStr ''stub-model'')]))
                 :: error + response"
  let ?upd0 = "\<lambda>x. if lead_id x = lead_id lead_john then x\<lparr>status := Some ''failed''\<rparr> else x"
  have f0: "fetch ?rt0 (preview_request ?rt0 ''Friendly'' 1 lead_john) 0 = (?out0, 1)"
    by (simp add: stub_fetch empty_preview_api_def preview_request_def)
  have g0: "generation_failed ?out0 \<or> zero_variants ?out0"
    by (simp add: zero_variants_empty)
  note t0 = failed_generation_skips_send[OF f0 g0, of 1 "[]" "demo_page {1}" 0 0]
  have id1: "lead_id lead_john = 1" by (simp add: lead_john_def mk_lead_def)
  have sts0: "map status (map ?upd0 (leads (demo_page {1}))) = [Some ''failed'', None, None, None, None]"
    by (simp add: stub_defs)
  from t0 have z1: "forwarded (snd (batch_iteration ?rt0 ''Friendly'' 1 1 lead_john [] (demo_page {1}, 0, 0, 0)))
                      = [preview_request ?rt0 ''Friendly'' 1 lead_john]"
    by blast
  from t0 have "leads (fst (fst (batch_iteration ?rt0 ''Friendly'' 1 1 lead_john [] (demo_page {1}, 0, 0, 0))))
                  = map ?upd0 (leads (demo_page {1}))"
    by blast
  then have z2: "map status (leads (fst (fst (batch_iteration ?rt0 ''Friendly'' 1 1 lead_john []
                     (demo_page {1}, 0, 0, 0))))) = [Some ''failed'', None, None, None, None]"
    by (simp only: sts0)
  from t0 have z3: "status_log (snd (batch_iteration ?rt0 ''Friendly'' 1 1 lead_john [] (demo_page {1}, 0, 0, 0)))
                      = [(1, ''failed'')]"
    by (simp add: id1)
  from c1 c2 c3 c4 c5 c6 z1 z2 z3 show ?thesis
    by (intro conjI)
qed

subsection \<open>When a send counts as sent\<close>

lemma send_check_iff:
  "send_check rt sendRes sendData = Inr ()
     \<longleftrightarrow> ok sendRes \<and> sendData \<noteq> JNull \<and> \<not> signals_failure sendData"
  by (cases sendData) (auto simp: send_check_def signals_failure_def)

lemma send_step_iff:
  "fst (send_step rt l variant w) = Inr ()
     \<longleftrightarrow> (\<exists>b res d. send_body l variant (now_iso rt w) = Inr b
                    \<and> fst (fetch rt (send_request b) w) = Inr res
                    \<and> json_result res = Inr d
                    \<and> ok res \<and> d \<noteq> JNull \<and> \<not> signals_failure d)"
proof (cases "send_body l variant (now_iso rt w)")
  case (Inl e)
  then show ?thesis by (simp add: send_step_def)
next
  case b: (Inr b)
  obtain a w1 where f: "fetch rt (send_request b) w = (a, w1)"
    by (cases "fetch rt (send_request b) w")
  show ?thesis
  proof (cases a)
    case (Inl e)
    with b f show ?thesis by (simp add: send_step_def)
  next
    case res: (Inr res)
    show ?thesis
    proof (cases "json_result res")
      case (Inl e)
      with b f res show ?thesis by (simp add: send_step_def)
    next
      case (Inr d)
      with b f res show ?thesis by (simp add: send_step_def send_check_iff)
    qed
  qed
qed

lemma try_lead_iff:
  "fst (try_lead rt tn cr l w) = Inr ()
     \<longleftrightarrow> (\<exists>v. fst (generate_step rt tn cr l w) = Inr v
              \<and> fst (send_step rt l v (fst (snd (generate_step rt tn cr l w)))) = Inr ())"
  by (auto simp: try_lead_def case_prod_beta split: sum.splits)

lemma batch_iteration_counters:
  "fst (snd (fst (batch_iteration rt tn cr n l rest (pg, s, f, w))))
     = (if fst (try_lead rt tn cr l w) = Inr () then s + 1 else s)
   \<and> fst (snd (snd (fst (batch_iteration rt tn cr n l rest (pg, s, f, w)))))
     = (if fst (try_lead rt tn cr l w) = Inr () then f else f + 1)
   \<and> status_log (snd (batch_iteration rt tn cr n l rest (pg, s, f, w)))
     = [(lead_id l, if fst (try_lead rt tn cr l w) = Inr () then ''sent'' else ''failed'')]"
  using batch_iteration_outcome[of rt tn cr n l rest pg s f w]
  by (cases "fst (try_lead rt tn cr l w)") (auto simp: outcome_status_def)

lemma scenario_run:
  "batchResults (fst (handleBatchSend (stub_runtime (api_stub None ok_false_for_2)) (demo_page {1, 2}) 0))
     = Some \<lparr> sent = 1, failed = 1, total = 2 \<rparr>
   \<and> map status (leads (fst (handleBatchSend (stub_runtime (api_stub None ok_false_for_2))
                                    (demo_page {1, 2}) 0)))
     = [Some ''sent'', Some ''failed'', None, None, None]"
  by (simp add: page_defs stub_defs Let_def)

text \<open>
  C5, as stated: a send is a success if and only if the transport call succeeded and the
  payload does not signal failure, where a \<open>status\<close> field that is present and not equal to
  \<open>"success"\<close> signals failure. The page tests \<open>sendData.status && ...\<close>: an answer 200
  with \<open>{status: ""}\<close> signals failure in the claim's words and is counted as sent; and an
  answer 200 with the payload \<open>null\<close> signals nothing and is counted as failed, because
  reading \<open>sendData.ok\<close> throws.
\<close>

theorem send_classification_counterexample:
  "spec_signals_failure (JObj [(''status'', JStr [])])
   \<and> api_stub None empty_status (send_request (JObj [(''leadId'', JNum 1)])) 0
       = Inr (reply 200 ''OK'' [] (JObj [(''status'', JStr [])]))
   \<and> batchResults (fst (handleBatchSend (stub_runtime (api_stub None empty_status)) (demo_page {1}) 0))
       = Some \<lparr> sent = 1, failed = 0, total = 1 \<rparr>
   \<and> \<not> spec_signals_failure JNull
   \<and> api_stub None null_payload (send_request (JObj [(''leadId'', JNum 1)])) 0
       = Inr (reply 200 ''OK'' [] JNull)
   \<and> batchResults (fst (handleBatchSend (stub_runtime (api_stub None null_payload)) (demo_page {1}) 0))
       = Some \<lparr> sent = 0, failed = 1, total = 1 \<rparr>"
  by (simp add: page_defs stub_defs Let_def spec_signals_failure_def)

text \<open>
  C5, amended: a lead is counted as sent if and only if its generation step gave a variant,
  the send request was answered, the answer parsed as JSON, its status was a success, and the
  payload is not null and does not signal failure, where signalling failure means an \<open>ok\<close>
  property that is \<open>false\<close>, or a \<open>status\<close> property that is truthy (not \<open>""\<close>, \<open>0\<close>,
  \<open>false\<close> or \<open>null\<close>) and not \<open>"success"\<close>; every other outcome counts the lead as
  failed. For the leads 1 and 2, where the preview always gives one variant and the send
  answers \<open>{ok: true}\<close> for lead 1 and \<open>{ok: false}\<close> for lead 2, the tally is
  \<open>{sent: 1, failed: 1, total: 2}\<close>, lead 1 is sent and lead 2 is failed.
\<close>

theorem send_classification:
  "(send_check rt sendRes sendData = Inr ()
      \<longleftrightarrow> ok sendRes \<and> sendData \<noteq> JNull \<and> \<not> signals_failure sendData)
   \<and> (fst (send_step rt l variant w) = Inr ()
      \<longleftrightarrow> (\<exists>b res d. send_body l variant (now_iso rt w) = Inr b
                    \<and> fst (fetch rt (send_request b) w) = Inr res
                    \<and> json_result res = Inr d
                    \<and> ok res \<and> d \<noteq> JNull \<and> \<not> signals_failure d))
   \<and> (fst (try_lead rt tn cr l w) = Inr ()
      \<longleftrightarrow> (\<exists>v. fst (generate_step rt tn cr l w) = Inr v
              \<and> fst (send_step rt l v (fst (snd (generate_step rt tn cr l w)))) = Inr ()))
   \<and> fst (snd (fst (batch_iteration rt tn cr n l rest (pg, s, f, w))))
       = (if fst (try_lead rt tn cr l w) = Inr () then s + 1 else s)
   \<and> fst (snd (snd (fst (batch_iteration rt tn cr n l rest (pg, s, f, w)))))
       = (if fst (try_lead rt tn cr l w) = Inr () then f else f + 1)
   \<and> status_log (snd (batch_iteration rt tn cr n l rest (pg, s, f, w)))
       = [(lead_id l, if fst (try_lead rt tn cr l w) = Inr () then ''sent'' else ''failed'')]
   \<and> batchResults (fst (handleBatchSend (stub_runtime (api_stub None ok_false_for_2)) (demo_page {1, 2}) 0))
       = Some \<lparr> sent = 1, failed = 1, total = 2 \<rparr>
   \<and> map status (leads (fst (handleBatchSend (stub_runtime (api_stub None ok_false_for_2))
                                    (demo_page {1, 2}) 0)))
       = [Some ''sent'', Some ''failed'', None, None, None]"
  using send_check_iff[of rt sendRes sendData] send_step_iff[of rt l variant w]
        try_lead_iff[of rt tn cr l w] batch_iteration_counters[of rt tn cr n l rest pg s f w]
        scenario_run
  by blast

theorem send_classification_witness:
  "send_check (stub_runtime (api_stub None ok_false_for_2))
     (reply 200 ''OK'' [] (JObj [(''ok'', JBool False)])) (JObj [(''ok'', JBool False)]) \<noteq> Inr ()
   \<and> send_check (stub_runtime (api_stub None ok_false_for_2))
     (reply 200 ''OK'' [] (JObj [(''ok'', JBool True)])) (JObj [(''ok'', JBool True)]) = Inr ()"
proof -
  let ?rt = "stub_runtime (api_stub None ok_false_for_2)"
  have a: "signals_failure (JObj [(''ok'', JBool False)])"
    by (simp add: signals_failure_def)
  have b: "\<not> signals_failure (JObj [(''ok'', JBool True)])"
    by (simp add: signals_failure_def)
  have c: "ok (reply 200 ''OK'' [] v)" for v by (simp add: ok_reply)
  from send_classification[of ?rt "reply 200 ''OK'' [] (JObj [(''ok'', JBool False)])"
         "JObj [(''ok'', JBool False)]"] a
  have "send_check ?rt (reply 200 ''OK'' [] (JObj [(''ok'', JBool False)]))
          (JObj [(''ok'', JBool False)]) \<noteq> Inr ()"
    by blast
  moreover
  from send_classification[of ?rt "reply 200 ''OK'' [] (JObj [(''ok'', JBool True)])"
         "JObj [(''ok'', JBool True)]"] b c
  have "send_check ?rt (reply 200 ''OK'' [] (JObj [(''ok'', JBool True)]))
          (JObj [(''ok'', JBool True)]) = Inr ()"
    by blast
  ultimately show ?thesis by blast
qed

subsection \<open>Order of the outcomes, and leads that do not affect each other\<close>

lemma filter_set_status_other:
  "\<not> Q i \<Longrightarrow> filter (\<lambda>l. Q (lead_id l)) (set_status i s xs) = filter (\<lambda>l. Q (lead_id l)) xs"
  by (induction xs) (simp_all add: set_status_def)

lemma filter_set_status_comm:
  "filter (\<lambda>l. Q (lead_id l)) (set_status i s xs) = set_status i s (filter (\<lambda>l. Q (lead_id l)) xs)"
  by (induction xs) (simp_all add: set_status_def)

lemma batch_loop_Cons_fst:
  "fst (batch_loop rt tn cr n (l # rest) st)
     = fst (batch_loop rt tn cr n rest (fst (batch_iteration rt tn cr n l rest st)))"
  by (simp add: case_prod_beta)

lemma batch_loop_Cons_snd:
  "snd (batch_loop rt tn cr n (l # rest) st)
     = snd (batch_iteration rt tn cr n l rest st)
       @ snd (batch_loop rt tn cr n rest (fst (batch_iteration rt tn cr n l rest st)))"
  by (simp add: case_prod_beta)

lemma batch_iteration_leads:
  "leads (fst (fst (batch_iteration rt tn cr n l rest st)))
     = set_status (lead_id l) (outcome_status (fst (try_lead rt tn cr l (snd (snd (snd st))))))
         (leads (fst st))"
  using batch_iteration_outcome[of rt tn cr n l rest "fst st" "fst (snd st)" "fst (snd (snd st))"
          "snd (snd (snd st))"]
  by auto

lemma batch_iteration_status_log:
  "status_log (snd (batch_iteration rt tn cr n l rest st))
     = [(lead_id l, outcome_status (fst (try_lead rt tn cr l (snd (snd (snd st))))))]"
  using batch_iteration_outcome[of rt tn cr n l rest "fst st" "fst (snd st)" "fst (snd (snd st))"
          "snd (snd (snd st))"]
  by auto

lemma generate_step_agree:
  assumes "agree_except rt rt' b" and "lead_id l \<noteq> b"
  shows "fst (generate_step rt tn cr l w) = fst (generate_step rt' tn cr l w')"
proof -
  from assms(1) have ts: "to_string rt = to_string rt'" by (simp add: agree_except_def)
  then have pr: "preview_request rt' tn cr l = preview_request rt tn cr l"
    by (simp add: preview_request_def)
  have "concerns (preview_request rt tn cr l) (lead_id l)"
    by (simp add: concerns_def preview_request_def)
  with assms have "fst (fetch rt (preview_request rt tn cr l) w)
                 = fst (fetch rt' (preview_request rt tn cr l) w')"
    unfolding agree_except_def by blast
  then show ?thesis
    by (simp add: generate_step_def pr case_prod_beta split: sum.splits)
qed

lemma send_body_leadId:
  "send_body l v t = Inr b0 \<Longrightarrow> concerns (send_request b0) (lead_id l)"
  by (auto simp: send_body_def concerns_def send_request_def body_field_def split: sum.splits)

lemma send_failed_agree:
  assumes "to_string rt = to_string rt'"
  shows "send_failed rt res d = send_failed rt' res d"
  using assms by (simp add: send_failed_def split: sum.splits)

lemma send_check_agree:
  assumes "to_string rt = to_string rt'"
  shows "send_check rt res d = send_check rt' res d"
  by (simp add: send_check_def send_failed_agree[OF assms] split: sum.splits)

lemma send_step_agree:
  assumes "agree_except rt rt' b" and "lead_id l \<noteq> b"
  shows "fst (send_step rt l v w) = fst (send_step rt' l v w')"
proof -
  from assms(1) have ts: "to_string rt = to_string rt'" and now: "now_iso rt w = now_iso rt' w'"
    by (simp_all add: agree_except_def)
  show ?thesis
  proof (cases "send_body l v (now_iso rt w)")
    case (Inl e)
    with now show ?thesis by (simp add: send_step_def)
  next
    case (Inr b0)
    from send_body_leadId[OF Inr] assms
    have "fst (fetch rt (send_request b0) w) = fst (fetch rt' (send_request b0) w')"
      unfolding agree_except_def by blast
    with Inr now send_check_agree[OF ts] show ?thesis
      by (simp add: send_step_def case_prod_beta split: sum.splits)
  qed
qed

lemma try_lead_fst:
  "fst (try_lead rt tn cr l w) =
     (case fst (generate_step rt tn cr l w) of
        Inl e \<Rightarrow> Inl e
      | Inr v \<Rightarrow> fst (send_step rt l v (fst (snd (generate_step rt tn cr l w)))))"
  by (simp add: try_lead_def case_prod_beta split: sum.splits)

lemma try_lead_agree:
  assumes "agree_except rt rt' b" and "lead_id l \<noteq> b"
  shows "fst (try_lead rt tn cr l w) = fst (try_lead rt' tn cr l w')"
proof -
  note g = generate_step_agree[OF assms, of tn cr w w']
  show ?thesis
  proof (cases "fst (generate_step rt' tn cr l w')")
    case (Inl e)
    then show ?thesis by (simp add: try_lead_fst g)
  next
    case (Inr v)
    with send_step_agree[OF assms, of v "fst (snd (generate_step rt tn cr l w))"
                           "fst (snd (generate_step rt' tn cr l w'))"]
    show ?thesis by (simp add: try_lead_fst g)
  qed
qed

lemma batch_loop_order:
  "map fst (status_log (snd (batch_loop rt tn cr n ls st))) = map lead_id ls"
proof (induction ls arbitrary: st)
  case Nil
  show ?case by simp
next
  case (Cons l rest)
  show ?case
    by (simp add: batch_loop_Cons_snd status_log_append batch_iteration_status_log Cons.IH
          del: batch_loop.simps)
qed

lemma batch_loop_status_agree:
  assumes "agree_except rt rt' b"
  shows "filter (\<lambda>p. fst p \<noteq> b) (status_log (snd (batch_loop rt tn cr n ls st)))
       = filter (\<lambda>p. fst p \<noteq> b) (status_log (snd (batch_loop rt' tn cr n' ls st')))"
proof (induction ls arbitrary: st st')
  case Nil
  show ?case by simp
next
  case (Cons l rest)
  have "filter (\<lambda>p. fst p \<noteq> b) (status_log (snd (batch_iteration rt tn cr n l rest st)))
      = filter (\<lambda>p. fst p \<noteq> b) (status_log (snd (batch_iteration rt' tn cr n' l rest st')))"
    using try_lead_agree[OF assms, of l tn cr "snd (snd (snd st))" "snd (snd (snd st'))"]
    by (simp add: batch_iteration_status_log)
  with Cons.IH[of "fst (batch_iteration rt tn cr n l rest st)"
                  "fst (batch_iteration rt' tn cr n' l rest st')"]
  show ?case
    by (simp only: batch_loop_Cons_snd status_log_append filter_append)
qed

lemma batch_loop_leads_agree:
  assumes "agree_except rt rt' b"
      and "filter (\<lambda>l. lead_id l \<noteq> b) (leads (fst st)) = filter (\<lambda>l. lead_id l \<noteq> b) (leads (fst st'))"
  shows "filter (\<lambda>l. lead_id l \<noteq> b) (leads (fst (fst (batch_loop rt tn cr n ls st))))
       = filter (\<lambda>l. lead_id l \<noteq> b) (leads (fst (fst (batch_loop rt' tn cr n' ls st'))))"
  using assms(2)
proof (induction ls arbitrary: st st')
  case Nil
  then show ?case by simp
next
  case (Cons l rest)
  have "filter (\<lambda>l. lead_id l \<noteq> b) (leads (fst (fst (batch_iteration rt tn cr n l rest st))))
      = filter (\<lambda>l. lead_id l \<noteq> b) (leads (fst (fst (batch_iteration rt' tn cr n' l rest st'))))"
  proof (cases "lead_id l = b")
    case True
    then show ?thesis
      using Cons.prems
      by (simp add: batch_iteration_leads filter_set_status_other[where Q="\<lambda>i. i \<noteq> b"])
  next
    case False
    from try_lead_agree[OF assms(1) False, of tn cr "snd (snd (snd st))" "snd (snd (snd st'))"]
    show ?thesis
      using Cons.prems
      by (simp add: batch_iteration_leads filter_set_status_comm[where Q="\<lambda>i. i \<noteq> b"])
  qed
  from Cons.IH[OF this] show ?case
    by (simp only: batch_loop_Cons_fst)
qed

lemma batch_loop_unselected:
  assumes "\<forall>l \<in> set ls. lead_id l \<in> S"
  shows "filter (\<lambda>l. lead_id l \<notin> S) (leads (fst (fst (batch_loop rt tn cr n ls st))))
       = filter (\<lambda>l. lead_id l \<notin> S) (leads (fst st))"
  using assms
proof (induction ls arbitrary: st)
  case Nil
  show ?case by simp
next
  case (Cons l rest)
  then have "lead_id l \<in> S" and r: "\<forall>l \<in> set rest. lead_id l \<in> S" by simp_all
  then have "filter (\<lambda>l. lead_id l \<notin> S) (leads (fst (fst (batch_iteration rt tn cr n l rest st))))
           = filter (\<lambda>l. lead_id l \<notin> S) (leads (fst st))"
    by (simp add: batch_iteration_leads filter_set_status_other[where Q="\<lambda>i. i \<notin> S"])
  with Cons.IH[OF r, of "fst (batch_iteration rt tn cr n l rest st)"] show ?case
    by (simp only: batch_loop_Cons_fst)
qed

text \<open>The text of an identifier is \<open>2\<close> for the identifier 2 only.\<close>

lemma dec_nonempty: "dec n \<noteq> []"
  by (subst dec.simps) simp

lemma dec_single: "dec n = [c] \<Longrightarrow> n < 10 \<and> c = digit_char n"
  by (subst (asm) dec.simps) (auto simp: dec_nonempty split: if_splits)

lemma digit_char_two: "n < 10 \<Longrightarrow> digit_char n = CHR ''2'' \<Longrightarrow> n = 2"
proof -
  assume "n < 10" and d: "digit_char n = CHR ''2''"
  then have "n \<in> {0, 1, 2, 3, 4, 5, 6, 7, 8, 9}" by auto
  with d show "n = 2" by (auto simp: digit_char_def)
qed

lemma String_int_two: "String_int i = ''2'' \<Longrightarrow> i = 2"
proof -
  assume s: "String_int i = ''2''"
  then have nn: "\<not> i < 0" by (auto simp: String_int_def)
  with s have "dec (nat i) = [CHR ''2'']" by (simp add: String_int_def)
  from dec_single[OF this] digit_char_two[of "nat i"] have "nat i = 2" by simp
  with nn show "i = 2" by simp
qed

lemma stubs_agree_except_2:
  "agree_except (stub_runtime (api_stub (Some ''2'') sp)) (stub_runtime (api_stub None sp)) 2"
  using String_int_two
  by (auto simp: agree_except_def stub_runtime_def api_stub_def concerns_def)

text \<open>
  C6: the status updates of a batch are recorded in the order of the selected leads, one for
  each. Take two runs of the same batch in two runtimes that agree except on the lead \<open>b\<close>
  (in one of them the generation of \<open>b\<close> fails, in the other it does not): the outcomes
  recorded for the other leads are the same in both runs, in the same order, and so are the
  leads other than \<open>b\<close> at the end; and the leads that are not selected are left as they
  were.
\<close>

theorem batch_order_and_independence:
  assumes "agree_except rt rt' b" and "selectedLeadIds pg \<noteq> {}"
  shows "map fst (status_log (snd (snd (handleBatchSend rt pg w)))) = map lead_id (selected_leads pg)
       \<and> filter (\<lambda>p. fst p \<noteq> b) (status_log (snd (snd (handleBatchSend rt pg w))))
         = filter (\<lambda>p. fst p \<noteq> b) (status_log (snd (snd (handleBatchSend rt' pg w'))))
       \<and> filter (\<lambda>l. lead_id l \<noteq> b) (leads (fst (handleBatchSend rt pg w)))
         = filter (\<lambda>l. lead_id l \<noteq> b) (leads (fst (handleBatchSend rt' pg w')))
       \<and> filter (\<lambda>l. lead_id l \<notin> selectedLeadIds pg) (leads (fst (handleBatchSend rt pg w)))
         = filter (\<lambda>l. lead_id l \<notin> selectedLeadIds pg) (leads pg)"
proof -
  let ?n = "length (selected_leads pg)"
  let ?pg0 = "pg\<lparr>batchSending := True,
                  batchProgress := Some \<lparr> progress_total = ?n, progress_completed = 0,
                                            progress_failed = 0, progress_current = None \<rparr>,
                  batchResults := None\<rparr>"
  let ?loop = "batch_loop rt (tone pg) (creativity pg) ?n (selected_leads pg) (?pg0, 0, 0, w)"
  let ?loop' = "batch_loop rt' (tone pg) (creativity pg) ?n (selected_leads pg) (?pg0, 0, 0, w')"
  have log: "status_log (snd (snd (handleBatchSend r pg v)))
           = status_log (snd (batch_loop r (tone pg) (creativity pg) ?n (selected_leads pg) (?pg0, 0, 0, v)))"
    and lds: "leads (fst (handleBatchSend r pg v))
           = leads (fst (fst (batch_loop r (tone pg) (creativity pg) ?n (selected_leads pg) (?pg0, 0, 0, v))))"
    for r :: "'c runtime" and v
    using assms(2) by (simp_all add: handleBatchSend_def Let_def case_prod_beta showToast_def)
  have sel: "\<forall>l \<in> set (selected_leads pg). lead_id l \<in> selectedLeadIds pg"
    by (simp add: selected_leads_def)
  have 1: "map fst (status_log (snd ?loop)) = map lead_id (selected_leads pg)"
    by (rule batch_loop_order)
  have 2: "filter (\<lambda>p. fst p \<noteq> b) (status_log (snd ?loop)) = filter (\<lambda>p. fst p \<noteq> b) (status_log (snd ?loop'))"
    by (rule batch_loop_status_agree[OF assms(1)])
  have 3: "filter (\<lambda>l. lead_id l \<noteq> b) (leads (fst (fst ?loop)))
         = filter (\<lambda>l. lead_id l \<noteq> b) (leads (fst (fst ?loop')))"
    by (rule batch_loop_leads_agree[OF assms(1)]) simp
  have 4: "filter (\<lambda>l. lead_id l \<notin> selectedLeadIds pg) (leads (fst (fst ?loop)))
         = filter (\<lambda>l. lead_id l \<notin> selectedLeadIds pg) (leads pg)"
    using batch_loop_unselected[OF sel, of rt "tone pg" "creativity pg" ?n "(?pg0, 0, 0, w)"]
    by simp
  from 1 2 3 4 show ?thesis
    by (simp only: log lds)
qed

theorem batch_order_and_independence_witness:
  "status_log (snd (snd (handleBatchSend (stub_runtime (api_stub (Some ''2'') ok_true)) (demo_page {1, 2, 3}) 0)))
     = [(1, ''sent''), (2, ''failed''), (3, ''sent'')]
   \<and> filter (\<lambda>p. fst p \<noteq> 2)
        (status_log (snd (snd (handleBatchSend (stub_runtime (api_stub None ok_true)) (demo_page {1, 2, 3}) 0))))
     = [(1, ''sent''), (3, ''sent'')]
   \<and> filter (\<lambda>l. lead_id l \<noteq> 2)
        (leads (fst (handleBatchSend (stub_runtime (api_stub None ok_true)) (demo_page {1, 2, 3}) 0)))
     = [lead_john\<lparr>status := Some ''sent''\<rparr>, lead_carlos\<lparr>status := Some ''sent''\<rparr>, lead_aisha, lead_mark]"
proof -
  let ?rt = "stub_runtime (api_stub (Some ''2'') ok_true)"
  let ?rt' = "stub_runtime (api_stub None ok_true)"
  have sel: "selectedLeadIds (demo_page {1, 2, 3}) \<noteq> {}"
    by (simp add: demo_page_def)
  have log: "status_log (snd (snd (handleBatchSend ?rt (demo_page {1, 2, 3}) 0)))
               = [(1, ''sent''), (2, ''failed''), (3, ''sent'')]"
    by (simp add: page_defs stub_defs Let_def)
  have lds: "filter (\<lambda>l. lead_id l \<noteq> 2) (leads (fst (handleBatchSend ?rt (demo_page {1, 2, 3}) 0)))
               = [lead_john\<lparr>status := Some ''sent''\<rparr>, lead_carlos\<lparr>status := Some ''sent''\<rparr>,
                  lead_aisha, lead_mark]"
    by (simp add: page_defs stub_defs Let_def)
  from batch_order_and_independence[OF stubs_agree_except_2 sel, of ok_true 0 0] log lds
  show ?thesis by simp
qed

end
